theory Spec2Isabelle
  imports Complex_Main "HOL-Library.Char_ord" "HOL-Library.List_Lexorder"
begin

section \<open>Values exchanged with the provider\<close>

text \<open>
  The dashboard (\<^verbatim>\<open>src/dashboard.py\<close>) sends HTTP requests to the provider and reads
  the decoded JSON of each response. A decoded JSON document is a Python object: \<open>None\<close>,
  a bool, a number, a string, a list or a dict. A dict is kept as the list of its items in
  insertion order; the keys of a dict are pairwise distinct. Numbers are modelled as
  reals: the rounding of 64-bit floats is not part of the model. A character of the model
  is a code point below 256.
\<close>

datatype jvalue =
    JNull
  | JBool bool
  | JNum real
  | JStr string
  | JArr "jvalue list"
  | JObj "(string \<times> jvalue) list"

text \<open>
  The exceptions the program can raise. \<open>NotModelled\<close> is not an exception of the
  program: it marks an input on which the behaviour of a library routine is outside this
  model, so that nothing is stated about it.
\<close>

datatype error =
    JSONDecodeError
  | KeyError string
  | TypeError
  | ValueError
  | NotModelled

text \<open>
  A response as the program reads it: \<open>response.status_code\<close> and the outcome of
  \<open>response.json()\<close>, which is \<open>None\<close> when the body is not parseable JSON (the call
  then raises \<open>JSONDecodeError\<close>).
\<close>

record response =
  status_code :: int
  json :: "jvalue option"

text \<open>
  The requests of one run: the batched trend request for all keywords, and one search
  request per endpoint kind and keyword, with its \<open>display\<close> parameter.
\<close>

datatype request =
    TrendRequest "string list"
  | SearchRequest string string nat

text \<open>
  The provider: the response to the \<open>i\<close>-th request of the run. Calls are sequential and
  never retried.
\<close>

type_synonym provider = "nat \<Rightarrow> request \<Rightarrow> response"

text \<open>
  A computation that returns a value or raises: \<open>Inl\<close> carries the exception. Sequencing
  stops at the first exception, as an uncaught exception does.
\<close>

definition and_then :: "error + 'a \<Rightarrow> ('a \<Rightarrow> error + 'b) \<Rightarrow> error + 'b" where
  "and_then m f = (case m of Inl e \<Rightarrow> Inl e | Inr x \<Rightarrow> f x)"

lemma and_then_Inl [simp]: "and_then (Inl e) f = Inl e"
  by (simp add: and_then_def)

lemma and_then_Inr [simp]: "and_then (Inr x) f = f x"
  by (simp add: and_then_def)

lemma and_then_cong [fundef_cong]:
  "m = m' \<Longrightarrow> (\<And>x. m' = Inr x \<Longrightarrow> f x = f' x) \<Longrightarrow> and_then m f = and_then m' f'"
  by (cases m') (simp_all add: and_then_def)

lemma and_then_eq_Inr:
  "and_then m f = Inr y \<longleftrightarrow> (\<exists>x. m = Inr x \<and> f x = Inr y)"
  by (cases m) simp_all

subsection \<open>Subscripting and iterating decoded JSON\<close>

text \<open>
  \<open>v[k]\<close> with a string key: a dict raises \<open>KeyError\<close> when the key is absent; every
  other object raises \<open>TypeError\<close> (a list or a string wants an integer index, the others
  are not subscriptable).
\<close>

fun getitem :: "jvalue \<Rightarrow> string \<Rightarrow> error + jvalue" where
  "getitem (JObj kvs) k =
     (case map_of kvs k of None \<Rightarrow> Inl (KeyError k) | Some v \<Rightarrow> Inr v)"
| "getitem _ k = Inl TypeError"

text \<open>
  \<open>for x in v\<close>: a list yields its elements, a dict its keys, a string its characters;
  \<open>None\<close>, a bool and a number are not iterable.
\<close>

fun iter :: "jvalue \<Rightarrow> error + jvalue list" where
  "iter (JArr xs) = Inr xs"
| "iter (JObj kvs) = Inr (map (\<lambda>kv. JStr (fst kv)) kvs)"
| "iter (JStr s) = Inr (map (\<lambda>c. JStr [c]) s)"
| "iter _ = Inl TypeError"

section \<open>Data frames\<close>

text \<open>
  A cell of a data frame is a number, a string or a missing value (\<open>NA\<close> stands for both
  \<open>None\<close> and NaN, which the library's \<open>isna\<close> does not tell apart). \<open>Float s\<close> is the
  64-bit float that the library's parser reads from the spelling \<open>s\<close>, where the model does
  not determine it: a number, an infinity or NaN. Such a cell arises only from the
  coercion of a price.
\<close>

datatype cell = NA | Num real | Str string | Float string

text \<open>
  A data frame is kept by columns, in column order, together with its number of rows
  (a frame can have rows and no column). Every column has \<open>nrows\<close> cells.
\<close>

record frame =
  nrows :: nat
  cols :: "(string \<times> cell list) list"

definition empty_frame :: frame where
  "empty_frame = \<lparr>nrows = 0, cols = []\<rparr>"

text \<open>\<open>df.empty\<close>: true when either axis has length 0.\<close>

definition df_empty :: "frame \<Rightarrow> bool" where
  "df_empty df \<longleftrightarrow> nrows df = 0 \<or> cols df = []"

text \<open>\<open>columns\<close>: the column labels in order.\<close>

definition columns :: "frame \<Rightarrow> string list" where
  "columns df = map fst (cols df)"

text \<open>\<open>df[c]\<close>: the column, or \<open>KeyError\<close>.\<close>

definition getcol :: "frame \<Rightarrow> string \<Rightarrow> error + cell list" where
  "getcol df c = (case map_of (cols df) c of None \<Rightarrow> Inl (KeyError c) | Some vs \<Rightarrow> Inr vs)"

text \<open>
  \<open>d[k] = v\<close> on an insertion-ordered dict: an existing key keeps its place and takes
  the new value, a new key goes to the end. \<open>df[c] = vs\<close> on a frame does the same with
  the column \<open>c\<close>.
\<close>

fun dict_set :: "('k \<times> 'v) list \<Rightarrow> 'k \<Rightarrow> 'v \<Rightarrow> ('k \<times> 'v) list" where
  "dict_set [] k v = [(k, v)]"
| "dict_set ((k', v') # d) k v =
     (if k' = k then (k, v) # d else (k', v') # dict_set d k v)"

definition setcol :: "frame \<Rightarrow> string \<Rightarrow> cell list \<Rightarrow> frame" where
  "setcol df c vs = df\<lparr>cols := dict_set (cols df) c vs\<rparr>"

text \<open>The distinct elements of a list, each at its first occurrence.\<close>

fun unique :: "'a list \<Rightarrow> 'a list" where
  "unique [] = []"
| "unique (x # xs) = x # unique (filter (\<lambda>y. y \<noteq> x) xs)"

text \<open>
  A decoded JSON scalar as a cell. A bool, a list and a dict can be cells of a frame of
  the library; frames holding them are outside the model.
\<close>

fun cell_of :: "jvalue \<Rightarrow> cell option" where
  "cell_of JNull = Some NA"
| "cell_of (JNum x) = Some (Num x)"
| "cell_of (JStr s) = Some (Str s)"
| "cell_of _ = None"

definition as_cell :: "jvalue \<Rightarrow> cell" where
  "as_cell v = (case cell_of v of None \<Rightarrow> NA | Some c \<Rightarrow> c)"

fun cells_of :: "jvalue list \<Rightarrow> error + cell list" where
  "cells_of [] = Inr []"
| "cells_of (v # vs) =
     (case cell_of v of
        None \<Rightarrow> Inl NotModelled
      | Some c \<Rightarrow> and_then (cells_of vs) (\<lambda>cs. Inr (c # cs)))"

text \<open>
  \<open>pd.DataFrame(records)\<close> for a list of dicts: one row per dict; the columns are the
  keys in order of first appearance; a key a dict lacks gives a missing cell.
\<close>

fun build_cols :: "string list \<Rightarrow> (string \<times> jvalue) list list \<Rightarrow> error + (string \<times> cell list) list" where
  "build_cols [] records = Inr []"
| "build_cols (c # cs) records =
     and_then (cells_of (map (\<lambda>d. case map_of d c of None \<Rightarrow> JNull | Some v \<Rightarrow> v) records)) (\<lambda>vs.
     and_then (build_cols cs records) (\<lambda>rest. Inr ((c, vs) # rest)))"

definition DataFrame_records :: "(string \<times> jvalue) list list \<Rightarrow> error + frame" where
  "DataFrame_records records =
     and_then (build_cols (unique (concat (map (map fst) records))) records) (\<lambda>cs.
       Inr \<lparr>nrows = length records, cols = cs\<rparr>)"

text \<open>
  \<open>pd.DataFrame(v)\<close> for a decoded JSON value \<open>v\<close>: \<open>None\<close> gives the empty frame, a list
  of dicts gives one row per dict, a bare scalar raises \<open>ValueError\<close>. A dict, and a list
  with an element that is not a dict, are outside the model.
\<close>

fun as_dict :: "jvalue \<Rightarrow> (string \<times> jvalue) list option" where
  "as_dict (JObj kvs) = Some kvs"
| "as_dict _ = None"

fun as_dicts :: "jvalue list \<Rightarrow> (string \<times> jvalue) list list option" where
  "as_dicts [] = Some []"
| "as_dicts (v # vs) =
     (case as_dict v of
        None \<Rightarrow> None
      | Some d \<Rightarrow> (case as_dicts vs of None \<Rightarrow> None | Some ds \<Rightarrow> Some (d # ds)))"

fun DataFrame :: "jvalue \<Rightarrow> error + frame" where
  "DataFrame JNull = Inr empty_frame"
| "DataFrame (JArr xs) =
     (case as_dicts xs of None \<Rightarrow> Inl NotModelled | Some ds \<Rightarrow> DataFrame_records ds)"
| "DataFrame (JObj kvs) = Inl NotModelled"
| "DataFrame _ = Inl ValueError"

section \<open>The API client and the normalizer\<close>

text \<open>
  One record of the flattened trend response, the dict
  \<^verbatim>\<open>{"period": ..., "ratio": ..., "keyword": ...}\<close> appended by the loop of
  \<^verbatim>\<open>fetch_shopping_trend\<close>.
\<close>

record trend_point =
  period :: jvalue
  ratio :: jvalue
  keyword :: jvalue

definition point_dict :: "trend_point \<Rightarrow> (string \<times> jvalue) list" where
  "point_dict r = [(''period'', period r), (''ratio'', ratio r), (''keyword'', keyword r)]"

text \<open>The inner loop, \<^verbatim>\<open>for entry in group['data']\<close>.\<close>

fun entries_loop :: "jvalue \<Rightarrow> jvalue list \<Rightarrow> error + trend_point list" where
  "entries_loop group_name [] = Inr []"
| "entries_loop group_name (entry # es) =
     and_then (getitem entry ''period'') (\<lambda>p.
     and_then (getitem entry ''ratio'') (\<lambda>r.
     and_then (entries_loop group_name es) (\<lambda>rest.
       Inr (\<lparr>period = p, ratio = r, keyword = group_name\<rparr> # rest))))"

text \<open>The outer loop, \<^verbatim>\<open>for group in data['results']\<close>.\<close>

fun groups_loop :: "jvalue list \<Rightarrow> error + trend_point list" where
  "groups_loop [] = Inr []"
| "groups_loop (grp # gs) =
     and_then (getitem grp ''title'') (\<lambda>group_name.
     and_then (getitem grp ''data'') (\<lambda>d.
     and_then (iter d) (\<lambda>entries.
     and_then (entries_loop group_name entries) (\<lambda>rs.
     and_then (groups_loop gs) (\<lambda>rest. Inr (rs @ rest))))))"

text \<open>The list \<^verbatim>\<open>results\<close> built from the decoded body \<^verbatim>\<open>data\<close>.\<close>

definition normalizer :: "jvalue \<Rightarrow> error + trend_point list" where
  "normalizer data =
     and_then (getitem data ''results'') (\<lambda>rs.
     and_then (iter rs) groups_loop)"

text \<open>
  \<^verbatim>\<open>fetch_shopping_trend\<close>, from the response on: only status 200 is read; any other
  status gives \<open>pd.DataFrame()\<close>.
\<close>

definition trend_of_response :: "response \<Rightarrow> error + frame" where
  "trend_of_response resp =
     (if status_code resp = 200 then
        (case json resp of
           None \<Rightarrow> Inl JSONDecodeError
         | Some data \<Rightarrow>
             and_then (normalizer data) (\<lambda>results. DataFrame_records (map point_dict results)))
      else Inr empty_frame)"

definition fetch_shopping_trend :: "provider \<Rightarrow> nat \<Rightarrow> string list \<Rightarrow> error + frame" where
  "fetch_shopping_trend net i keywords = trend_of_response (net i (TrendRequest keywords))"

text \<open>\<^verbatim>\<open>fetch_search_results\<close>, from the response on.\<close>

definition search_of_response :: "response \<Rightarrow> error + frame" where
  "search_of_response resp =
     (if status_code resp = 200 then
        (case json resp of
           None \<Rightarrow> Inl JSONDecodeError
         | Some data \<Rightarrow> and_then (getitem data ''items'') DataFrame)
      else Inr empty_frame)"

definition fetch_search_results :: "provider \<Rightarrow> nat \<Rightarrow> string \<Rightarrow> string \<Rightarrow> error + frame" where
  "fetch_search_results net i api_type kw =
     search_of_response (net i (SearchRequest api_type kw 50))"

section \<open>Keywords and data collection\<close>

text \<open>
  \<open>str.isspace\<close> on a code point below 256: the ASCII blanks \<open>\t \n \v \f \r\<close> and the
  space, the separators \<open>0x1c\<close> to \<open>0x1f\<close>, and \<open>0x85\<close> and \<open>0xa0\<close>.
\<close>

definition isspace :: "char \<Rightarrow> bool" where
  "isspace c \<longleftrightarrow> (of_char c :: nat) \<in> {9, 10, 11, 12, 13, 28, 29, 30, 31, 32, 133, 160}"

text \<open>\<open>s.strip()\<close>: blanks removed at both ends.\<close>

definition strip :: "string \<Rightarrow> string" where
  "strip s = rev (dropWhile isspace (rev (dropWhile isspace s)))"

text \<open>
  \<open>s.split(sep)\<close> for a one-character separator: the pieces between the separators, empty
  pieces included; \<open>cur\<close> is the piece being read, reversed.
\<close>

fun split_from :: "char \<Rightarrow> string \<Rightarrow> string \<Rightarrow> string list" where
  "split_from sep cur [] = [rev cur]"
| "split_from sep cur (c # cs) =
     (if c = sep then rev cur # split_from sep [] cs else split_from sep (c # cur) cs)"

definition split :: "string \<Rightarrow> char \<Rightarrow> string list" where
  "split s sep = split_from sep [] s"

text \<open>
  Line 91: \<^verbatim>\<open>keywords = [k.strip() for k in keyword_input.split(",") if k.strip()]\<close>.
\<close>

definition parse_keywords :: "string \<Rightarrow> string list" where
  "parse_keywords keyword_input =
     map strip (filter (\<lambda>k. strip k \<noteq> []) (split keyword_input CHR '',''))"

text \<open>
  The dict comprehension \<^verbatim>\<open>{kw: fetch_search_results(api_type, kw) for kw in keywords}\<close>:
  one request per element of \<open>keywords\<close>, in order, the \<open>i\<close>-th request of the run first;
  \<open>d\<close> is the dict built so far. An exception of a call ends the comprehension.
\<close>

fun search_all ::
  "provider \<Rightarrow> nat \<Rightarrow> string \<Rightarrow> string list \<Rightarrow> (string \<times> frame) list \<Rightarrow> error + (string \<times> frame) list"
where
  "search_all net i api_type [] d = Inr d"
| "search_all net i api_type (kw # kws) d =
     and_then (fetch_search_results net i api_type kw) (\<lambda>df.
       search_all net (Suc i) api_type kws (dict_set d kw df))"

text \<open>The data of one run (lines 101 to 103).\<close>

record collected =
  trend_df :: frame
  blog_dfs :: "(string \<times> frame) list"
  shop_dfs :: "(string \<times> frame) list"

definition collect :: "provider \<Rightarrow> string list \<Rightarrow> error + collected" where
  "collect net keywords =
     and_then (fetch_shopping_trend net 0 keywords) (\<lambda>t.
     and_then (search_all net 1 ''blog'' keywords []) (\<lambda>b.
     and_then (search_all net (1 + length keywords) ''shop'' keywords []) (\<lambda>s.
       Inr \<lparr>trend_df = t, blog_dfs = b, shop_dfs = s\<rparr>)))"

text \<open>\<open>d.get(k, pd.DataFrame())\<close>.\<close>

definition get_df :: "(string \<times> frame) list \<Rightarrow> string \<Rightarrow> frame" where
  "get_df d k = (case map_of d k of None \<Rightarrow> empty_frame | Some df \<Rightarrow> df)"

section \<open>Numeric coercion and statistics\<close>

definition is_digit :: "char \<Rightarrow> bool" where
  "is_digit c \<longleftrightarrow> 48 \<le> (of_char c :: nat) \<and> (of_char c :: nat) \<le> 57"

text \<open>The value of a string of decimal digits.\<close>

definition decimal :: "string \<Rightarrow> nat" where
  "decimal s = foldl (\<lambda>n c. 10 * n + (of_char c - 48)) 0 s"

text \<open>
  The words \<open>inf\<close> and \<open>infinity\<close>, in either case, are the only spellings of a float
  without a digit that the parser reads as a number. \<open>mentions_inf s\<close> holds when \<open>s\<close>
  contains the letters \<open>i\<close>, \<open>n\<close>, \<open>f\<close> in a row, in either case.
\<close>

fun mentions_inf :: "string \<Rightarrow> bool" where
  "mentions_inf (a # b # c # s) =
     ((a \<in> {CHR ''i'', CHR ''I''} \<and> b \<in> {CHR ''n'', CHR ''N''} \<and> c \<in> {CHR ''f'', CHR ''F''})
      \<or> mentions_inf (b # c # s))"
| "mentions_inf s = False"

text \<open>
  \<open>pd.to_numeric(..., errors='coerce')\<close> on one cell; the result is a float (or an
  integer) in every case, no exception is raised. A number and a missing value stay.
  A non-empty string of at most 15 decimal digits becomes its value: the value is below
  \<open>2^53\<close>, so every numeric type of the library holds it exactly, as it does every value
  met while the digits are read. A string with no digit that does not mention \<open>inf\<close>
  (the empty string, \<open>N/A\<close>, \<open>abc\<close>) has no numeric reading and becomes missing. For
  every other string (a sign, a fraction, an exponent, blanks around the digits, more
  than 15 digits, an infinity) the result is the float the parser reads, which the model
  does not determine.
\<close>

fun to_numeric_cell :: "cell \<Rightarrow> cell" where
  "to_numeric_cell NA = NA"
| "to_numeric_cell (Num x) = Num x"
| "to_numeric_cell (Float s) = Float s"
| "to_numeric_cell (Str s) =
     (if s \<noteq> [] \<and> list_all is_digit s \<and> length s \<le> 15 then Num (real (decimal s))
      else if \<not> list_ex is_digit s \<and> \<not> mentions_inf s then NA
      else Float s)"

definition to_numeric :: "cell list \<Rightarrow> cell list" where
  "to_numeric vs = map to_numeric_cell vs"

text \<open>
  \<^verbatim>\<open>df['lprice'] = pd.to_numeric(df['lprice'], errors='coerce')\<close> (lines 138 and 156):
  \<open>KeyError\<close> when the frame has no such column.
\<close>

definition coerce_lprice :: "frame \<Rightarrow> error + frame" where
  "coerce_lprice df =
     and_then (getcol df ''lprice'') (\<lambda>vs. Inr (setcol df ''lprice'' (to_numeric vs)))"

text \<open>
  The statistics below are those of a column of numbers and missing values. A column
  with a float the model does not determine is outside the model.
\<close>

fun undetermined :: "cell \<Rightarrow> bool" where
  "undetermined (Float s) = True"
| "undetermined c = False"

definition numeric_column :: "cell list \<Rightarrow> error + cell list" where
  "numeric_column vs = (if list_ex undetermined vs then Inl NotModelled else Inr vs)"

text \<open>The numbers of a column, missing cells skipped (\<open>skipna\<close>).\<close>

fun numbers :: "cell list \<Rightarrow> real list" where
  "numbers [] = []"
| "numbers (Num x # cs) = x # numbers cs"
| "numbers (c # cs) = numbers cs"

text \<open>\<open>Series.mean()\<close>: the mean of the numbers; missing when there is none.\<close>

definition mean :: "cell list \<Rightarrow> cell" where
  "mean vs = (let xs = numbers vs in
     if xs = [] then NA else Num (sum_list xs / real (length xs)))"

text \<open>The sample standard deviation (\<open>ddof = 1\<close>); missing below two numbers.\<close>

definition std :: "cell list \<Rightarrow> cell" where
  "std vs = (let xs = numbers vs; n = length xs; m = sum_list xs / real n in
     if n < 2 then NA else Num (sqrt (sum_list (map (\<lambda>x. (x - m)\<^sup>2) xs) / real (n - 1))))"

text \<open>The quantile \<open>q\<close> by linear interpolation between the two nearest ranks.\<close>

definition quantile :: "real \<Rightarrow> cell list \<Rightarrow> cell" where
  "quantile q vs = (let xs = sort (numbers vs); n = length xs;
       h = real (n - 1) * q; i = nat \<lfloor>h\<rfloor> in
     if n = 0 then NA
     else if i + 1 < n then Num (xs ! i + (h - real i) * (xs ! (i + 1) - xs ! i))
     else Num (xs ! i))"

definition minimum :: "cell list \<Rightarrow> cell" where
  "minimum vs = (let xs = numbers vs in if xs = [] then NA else Num (Min (set xs)))"

definition maximum :: "cell list \<Rightarrow> cell" where
  "maximum vs = (let xs = numbers vs in if xs = [] then NA else Num (Max (set xs)))"

text \<open>\<open>describe()\<close> of a numeric column.\<close>

record stats =
  st_count :: nat
  st_mean :: cell
  st_std :: cell
  st_min :: cell
  st_q25 :: cell
  st_q50 :: cell
  st_q75 :: cell
  st_max :: cell

definition describe :: "cell list \<Rightarrow> stats" where
  "describe vs = \<lparr>st_count = length (numbers vs), st_mean = mean vs, st_std = std vs,
     st_min = minimum vs, st_q25 = quantile (1/4) vs, st_q50 = quantile (1/2) vs,
     st_q75 = quantile (3/4) vs, st_max = maximum vs\<rparr>"

text \<open>
  \<open>value_counts()\<close>: the distinct non-missing values with their numbers of occurrences,
  the most frequent first. Among equal counts the model keeps the order of first
  appearance; the library leaves that order open.
\<close>

definition value_counts :: "cell list \<Rightarrow> (cell \<times> nat) list" where
  "value_counts vs = (let present = filter (\<lambda>c. c \<noteq> NA) vs in
     sort_key (\<lambda>p. - int (snd p)) (map (\<lambda>v. (v, count_list present v)) (unique present)))"

definition head :: "nat \<Rightarrow> 'a list \<Rightarrow> 'a list" where
  "head n xs = take n xs"

section \<open>The aggregator\<close>

subsection \<open>The pivoted trend table\<close>

text \<open>
  The labels of an axis in sorted order. Labels that are all strings sort by code point,
  labels that are all numbers by value; a missing label and labels of mixed types are
  outside the model.
\<close>

fun strings_of :: "cell list \<Rightarrow> string list option" where
  "strings_of [] = Some []"
| "strings_of (Str s # cs) = (case strings_of cs of None \<Rightarrow> None | Some ss \<Rightarrow> Some (s # ss))"
| "strings_of (c # cs) = None"

fun reals_of :: "cell list \<Rightarrow> real list option" where
  "reals_of [] = Some []"
| "reals_of (Num x # cs) = (case reals_of cs of None \<Rightarrow> None | Some xs \<Rightarrow> Some (x # xs))"
| "reals_of (c # cs) = None"

definition sort_labels :: "cell list \<Rightarrow> error + cell list" where
  "sort_labels ls =
     (case strings_of ls of
        Some ss \<Rightarrow> Inr (map Str (sort ss))
      | None \<Rightarrow>
          (case reals_of ls of
             Some xs \<Rightarrow> Inr (map Num (sort xs))
           | None \<Rightarrow> Inl NotModelled))"

text \<open>
  The result of \<open>pivot\<close>: the row labels, the column labels, and the cells row by row.
\<close>

record pivot_table =
  row_labels :: "cell list"
  col_labels :: "cell list"
  table :: "cell list list"

text \<open>
  \<open>df.pivot(index=..., columns=..., values=...)\<close>: \<open>KeyError\<close> for a column the frame
  lacks; \<open>ValueError\<close> when an (index, columns) pair occurs in two rows (the library
  cannot reshape an index with duplicate entries). Otherwise there is one row per
  distinct index value and one column per distinct columns value; the cell of a pair
  holds the value of the row that has this pair, and is missing when no row has it.
\<close>

definition pivot :: "frame \<Rightarrow> string \<Rightarrow> string \<Rightarrow> string \<Rightarrow> error + pivot_table" where
  "pivot df idx col val =
     and_then (getcol df idx) (\<lambda>ps.
     and_then (getcol df col) (\<lambda>ks.
     and_then (getcol df val) (\<lambda>vs.
     and_then (sort_labels (unique ps)) (\<lambda>rl.
     and_then (sort_labels (unique ks)) (\<lambda>cl.
       if \<not> distinct (zip ps ks) then Inl ValueError
       else Inr \<lparr>row_labels = rl, col_labels = cl,
                 table = map (\<lambda>p. map (\<lambda>k. case map_of (zip (zip ps ks) vs) (p, k) of
                                                None \<Rightarrow> NA | Some v \<Rightarrow> v) cl) rl\<rparr>)))))"

text \<open>The position of a label on an axis, and the cell \<open>t.loc[p, k]\<close> of a pivot table.\<close>

fun position :: "'a list \<Rightarrow> 'a \<Rightarrow> nat option" where
  "position [] x = None"
| "position (y # ys) x = (if y = x then Some 0 else map_option Suc (position ys x))"

definition loc :: "pivot_table \<Rightarrow> cell \<Rightarrow> cell \<Rightarrow> cell option" where
  "loc t p k =
     (case position (row_labels t) p of
        None \<Rightarrow> None
      | Some i \<Rightarrow>
          (case position (col_labels t) k of
             None \<Rightarrow> None
           | Some j \<Rightarrow> Some (table t ! i ! j)))"

subsection \<open>The combined shop view\<close>

text \<open>\<open>df[c] = v\<close> for a scalar \<open>v\<close>: the value in every row.\<close>

definition setcol_scalar :: "frame \<Rightarrow> string \<Rightarrow> cell \<Rightarrow> frame" where
  "setcol_scalar df c v = setcol df c (replicate (nrows df) v)"

text \<open>
  Lines 151 to 157: every non-empty shop frame is copied, the copy gets the column
  \<open>keyword\<close> and a coerced \<open>lprice\<close>, and is appended. The stored frames are not touched.
\<close>

fun all_shop_data :: "(string \<times> frame) list \<Rightarrow> error + frame list" where
  "all_shop_data [] = Inr []"
| "all_shop_data ((kw, df) # items) =
     (if \<not> df_empty df then
        and_then (coerce_lprice (setcol_scalar df ''keyword'' (Str kw))) (\<lambda>tdf.
        and_then (all_shop_data items) (\<lambda>rest. Inr (tdf # rest)))
      else all_shop_data items)"

text \<open>
  \<open>pd.concat(frames)\<close>: the rows of the frames one after the other; the columns are the
  union of the frames' columns in order of first appearance; a frame that lacks a column
  gives missing cells in it.
\<close>

definition pd_concat :: "frame list \<Rightarrow> frame" where
  "pd_concat dfs =
     \<lparr>nrows = sum_list (map nrows dfs),
      cols = map (\<lambda>c. (c, concat (map (\<lambda>df. case map_of (cols df) c of
                                                None \<Rightarrow> replicate (nrows df) NA
                                              | Some vs \<Rightarrow> vs) dfs)))
                 (unique (concat (map columns dfs)))\<rparr>"

text \<open>
  \<open>groupby("keyword")["lprice"].mean().reset_index()\<close>: one row per keyword of the key
  column, in sorted order, with the mean of the numbers of its rows.
\<close>

fun key_strings :: "cell list \<Rightarrow> string list" where
  "key_strings [] = []"
| "key_strings (Str s # cs) = s # key_strings cs"
| "key_strings (c # cs) = key_strings cs"

definition group_cells :: "cell list \<Rightarrow> cell list \<Rightarrow> string \<Rightarrow> cell list" where
  "group_cells keys vals k = map snd (filter (\<lambda>kv. fst kv = Str k) (zip keys vals))"

definition groupby_mean :: "cell list \<Rightarrow> cell list \<Rightarrow> (string \<times> cell) list" where
  "groupby_mean keys vals =
     map (\<lambda>k. (k, mean (group_cells keys vals k))) (sort (remdups (key_strings keys)))"

text \<open>\<open>df[mask]\<close>: the rows whose mask is true.\<close>

definition select_rows :: "frame \<Rightarrow> bool list \<Rightarrow> frame" where
  "select_rows df keep =
     \<lparr>nrows = length (filter id keep),
      cols = map (\<lambda>cv. (fst cv, map fst (filter snd (zip (snd cv) keep)))) (cols df)\<rparr>"

subsection \<open>Price bins\<close>

text \<open>
  Lines 196 and 197: \<^verbatim>\<open>pd.cut(combined_shop['lprice'], bins=5)\<close> and the count of the rows
  per keyword and bin. With no number at all in the price column the edges of the bins
  are not distinct and the library raises \<open>ValueError\<close>; \<open>KeyError\<close> for a column the
  frame lacks. The table carries the frame it is drawn from: the edges of the bins are
  the library's floats and no property below needs them.
\<close>

definition price_bins :: "frame \<Rightarrow> error + frame" where
  "price_bins combined =
     and_then (getcol combined ''lprice'') (\<lambda>prices.
     and_then (numeric_column prices) (\<lambda>xs.
       if numbers xs = [] then Inl ValueError
       else and_then (getcol combined ''keyword'') (\<lambda>keys. Inr combined)))"

section \<open>The keyword-salience extractor\<close>

text \<open>
  The documents of a blog frame (line 177):
  \<^verbatim>\<open>b_df['title'].fillna('') + " " + b_df['description'].fillna('')\<close>.
  A missing cell counts as the empty string; adding a string to a number raises
  \<open>TypeError\<close>; a column the frame lacks raises \<open>KeyError\<close>. With a float the model
  does not determine the sum is outside the model.
\<close>

definition fillna :: "string \<Rightarrow> cell list \<Rightarrow> cell list" where
  "fillna s vs = map (\<lambda>c. if c = NA then Str s else c) vs"

text \<open>The text of a string cell, a missing cell counting as the empty string.\<close>

fun text_of :: "cell \<Rightarrow> string" where
  "text_of (Str s) = s"
| "text_of c = []"

fun add_str :: "cell \<Rightarrow> cell \<Rightarrow> error + string" where
  "add_str (Str a) (Str b) = Inr (a @ b)"
| "add_str (Float s) c = Inl NotModelled"
| "add_str c (Float s) = Inl NotModelled"
| "add_str c c' = Inl TypeError"

fun add_scalar :: "cell list \<Rightarrow> string \<Rightarrow> error + cell list" where
  "add_scalar [] s = Inr []"
| "add_scalar (c # cs) s =
     and_then (add_str c (Str s)) (\<lambda>x.
     and_then (add_scalar cs s) (\<lambda>xs. Inr (Str x # xs)))"

fun add_series :: "cell list \<Rightarrow> cell list \<Rightarrow> error + string list" where
  "add_series (a # as) (b # bs) =
     and_then (add_str a b) (\<lambda>x.
     and_then (add_series as bs) (\<lambda>xs. Inr (x # xs)))"
| "add_series _ _ = Inr []"

definition corpus :: "frame \<Rightarrow> error + string list" where
  "corpus b_df =
     and_then (getcol b_df ''title'') (\<lambda>ts.
     and_then (add_scalar (fillna [] ts) '' '') (\<lambda>left.
     and_then (getcol b_df ''description'') (\<lambda>ds.
       add_series left (fillna [] ds))))"

text \<open>
  The analyzer of the vectorizer: the document in lower case, cut into its tokens, the
  maximal runs of two or more word characters (the pattern \<^verbatim>\<open>\b\w\w+\b\<close>). On code
  points below 256 a word character is an ASCII letter or digit, the underscore, or a
  Latin-1 letter or numeric sign.
\<close>

definition word_char :: "char \<Rightarrow> bool" where
  "word_char c \<longleftrightarrow> (let n = (of_char c :: nat) in
     (48 \<le> n \<and> n \<le> 57) \<or> (65 \<le> n \<and> n \<le> 90) \<or> (97 \<le> n \<and> n \<le> 122) \<or> n = 95
     \<or> n \<in> {170, 178, 179, 181, 185, 186, 188, 189, 190}
     \<or> (192 \<le> n \<and> n \<le> 255 \<and> n \<noteq> 215 \<and> n \<noteq> 247))"

definition lower_char :: "char \<Rightarrow> char" where
  "lower_char c = (let n = (of_char c :: nat) in
     if (65 \<le> n \<and> n \<le> 90) \<or> (192 \<le> n \<and> n \<le> 222 \<and> n \<noteq> 215)
     then char_of (n + 32) else c)"

definition lower :: "string \<Rightarrow> string" where
  "lower s = map lower_char s"

text \<open>\<open>cur\<close> is the run of word characters being read, reversed.\<close>

fun tokens_from :: "string \<Rightarrow> string \<Rightarrow> string list" where
  "tokens_from cur [] = (if 2 \<le> length cur then [rev cur] else [])"
| "tokens_from cur (c # cs) =
     (if word_char c then tokens_from (c # cur) cs
      else (if 2 \<le> length cur then [rev cur] else []) @ tokens_from [] cs)"

definition analyze :: "string \<Rightarrow> string list" where
  "analyze doc = tokens_from [] (lower doc)"

text \<open>
  The vocabulary: the distinct tokens of all documents in sorted order, cut down to
  \<open>max_features\<close> terms of highest total count when there are more. The library takes
  the first \<open>max_features\<close> terms of an unstable sort by descending count, so among terms
  of equal count at the cut it leaves open which are kept. \<open>limit_features\<close> is the set
  of the vocabularies this admits: \<open>max_features\<close> terms, none of a lower count than a
  term left out, in sorted order.
\<close>

definition term_count :: "string list \<Rightarrow> string \<Rightarrow> nat" where
  "term_count toks t = count_list toks t"

definition total_count :: "string list list \<Rightarrow> string \<Rightarrow> nat" where
  "total_count docs t = sum_list (map (\<lambda>d. term_count d t) docs)"

definition limit_features :: "nat \<Rightarrow> string list list \<Rightarrow> string list \<Rightarrow> string list set" where
  "limit_features max_features docs terms =
     (if max_features < length terms then
        {filter (\<lambda>t. t \<in> K) terms | K.
           K \<subseteq> set terms \<and> card K = max_features \<and>
           (\<forall>a \<in> K. \<forall>b \<in> set terms - K. total_count docs b \<le> total_count docs a)}
      else {terms})"

definition vocabulary :: "nat \<Rightarrow> string list list \<Rightarrow> string list set" where
  "vocabulary max_features docs = limit_features max_features docs (sort (remdups (concat docs)))"

text \<open>
  The smoothed inverse document frequency of a term, \<open>ln ((1 + n) / (1 + df)) + 1\<close>, and
  the TF-IDF score of a term in a document: count times idf, the row of the document
  scaled to Euclidean length 1 (a row of zeros stays).
\<close>

definition doc_freq :: "string list list \<Rightarrow> string \<Rightarrow> nat" where
  "doc_freq docs t = length (filter (\<lambda>d. t \<in> set d) docs)"

definition idf :: "string list list \<Rightarrow> string \<Rightarrow> real" where
  "idf docs t = ln ((1 + real (length docs)) / (1 + real (doc_freq docs t))) + 1"

definition raw_score :: "string list list \<Rightarrow> string list \<Rightarrow> string \<Rightarrow> real" where
  "raw_score docs d t = real (term_count d t) * idf docs t"

definition row_norm :: "string list list \<Rightarrow> string list \<Rightarrow> string list \<Rightarrow> real" where
  "row_norm docs terms d = sqrt (sum_list (map (\<lambda>t. (raw_score docs d t)\<^sup>2) terms))"

definition tfidf :: "string list list \<Rightarrow> string list \<Rightarrow> string list \<Rightarrow> string \<Rightarrow> real" where
  "tfidf docs terms d t =
     (if row_norm docs terms d = 0 then raw_score docs d t
      else raw_score docs d t / row_norm docs terms d)"

text \<open>
  Lines 176 to 180: \<open>fit_transform\<close> raises \<open>ValueError\<close> on an empty vocabulary; the
  weight of a term is the sum of its column of the TF-IDF matrix; the rows (term, weight)
  are sorted by weight, the heaviest first. The sort is unstable, so the order among
  rows of equal weight is open as well. \<open>salience\<close> gives the set of the tables
  \<^verbatim>\<open>words_df\<close> that the library's choices admit; the table of a run is one of them.
\<close>

definition weight :: "string list list \<Rightarrow> string list \<Rightarrow> string \<Rightarrow> real" where
  "weight docs terms t = sum_list (map (\<lambda>d. tfidf docs terms d t) docs)"

definition sort_values_desc :: "(string \<times> real) list \<Rightarrow> (string \<times> real) list set" where
  "sort_values_desc rows =
     {ws. (\<forall>p. count_list ws p = count_list rows p) \<and> sorted_wrt (\<lambda>a b. snd b \<le> snd a) ws}"

definition salience :: "string list \<Rightarrow> error + (string \<times> real) list set" where
  "salience documents = (let docs = map analyze documents in
     if concat docs = [] then Inl ValueError
     else Inr (\<Union>terms \<in> vocabulary 20 docs.
                 sort_values_desc (map (\<lambda>t. (t, weight docs terms t)) terms)))"

section \<open>The four tabs of a run\<close>

text \<open>
  What a run renders, in order. A chart or table whose content no property below needs
  carries the frame it is drawn from.
\<close>

datatype rendered =
    LineChart frame
  | PivotTable pivot_table
  | TrendStats frame
  | TrendWarning
  | PriceStats string stats
  | TopMalls string "(cell \<times> nat) list"
  | Histogram frame
  | AvgPrice "(string \<times> cell) list"
  | SalienceChart string "(string \<times> real) list set"
  | BoxPlot frame
  | PriceSummary frame
  | RawShop string frame
  | RawBlog string frame

text \<open>Tab 1 (lines 109 to 126).\<close>

definition tab_trend :: "frame \<Rightarrow> error + rendered list" where
  "tab_trend t =
     (if \<not> df_empty t then
        and_then (pivot t ''period'' ''keyword'' ''ratio'') (\<lambda>pivot_trend.
          Inr [LineChart t, PivotTable pivot_trend, TrendStats t])
      else Inr [TrendWarning])"

text \<open>
  Tab 2 (lines 129 to 144). \<^verbatim>\<open>shop_df\<close> is the frame stored in \<^verbatim>\<open>shop_dfs\<close>, not a copy:
  the assignment of line 138 changes the stored frame.
\<close>

fun tab_eda :: "string list \<Rightarrow> (string \<times> frame) list \<Rightarrow> error + ((string \<times> frame) list \<times> rendered list)" where
  "tab_eda [] dfs = Inr (dfs, [])"
| "tab_eda (kw # kws) dfs =
     (let shop_df = get_df dfs kw in
      if \<not> df_empty shop_df then
        and_then (coerce_lprice shop_df) (\<lambda>shop_df'.
        and_then (getcol shop_df' ''lprice'') (\<lambda>prices.
        and_then (numeric_column prices) (\<lambda>xs.
        and_then (getcol shop_df' ''mallName'') (\<lambda>malls.
        and_then (tab_eda kws (dict_set dfs kw shop_df')) (\<lambda>r.
          Inr (fst r, PriceStats kw (describe xs)
                      # TopMalls kw (head 10 (value_counts malls)) # snd r))))))
      else tab_eda kws dfs)"

text \<open>The loop of lines 173 to 183, one chart per keyword with a non-empty blog frame.\<close>

fun salience_loop :: "(string \<times> frame) list \<Rightarrow> string list \<Rightarrow> error + rendered list" where
  "salience_loop blogs [] = Inr []"
| "salience_loop blogs (kw # kws) =
     (let b_df = get_df blogs kw in
      if \<not> df_empty b_df then
        and_then (corpus b_df) (\<lambda>documents.
        and_then (salience documents) (\<lambda>words_df.
        and_then (salience_loop blogs kws) (\<lambda>rest. Inr (SalienceChart kw words_df # rest))))
      else salience_loop blogs kws)"

text \<open>
  Tab 3 (lines 147 to 190). Everything after the loop that builds \<^verbatim>\<open>all_shop_data\<close> is
  under \<^verbatim>\<open>if all_shop_data:\<close>. The list is returned for tab 4.
\<close>

definition tab_viz ::
  "string list \<Rightarrow> (string \<times> frame) list \<Rightarrow> (string \<times> frame) list \<Rightarrow> error + (frame list \<times> rendered list)"
where
  "tab_viz keywords blogs shops =
     and_then (all_shop_data shops) (\<lambda>data.
       if data \<noteq> [] then
         (let combined_shop = pd_concat data in
          and_then (getcol combined_shop ''keyword'') (\<lambda>keys.
          and_then (getcol combined_shop ''lprice'') (\<lambda>prices.
          and_then (numeric_column prices) (\<lambda>xs.
          and_then (salience_loop blogs keywords) (\<lambda>charts.
          and_then (getcol combined_shop ''mallName'') (\<lambda>malls.
            let top_malls = map fst (head 10 (value_counts malls));
                mall_subset = select_rows combined_shop (map (\<lambda>m. m \<in> set top_malls) malls)
            in Inr (data, [Histogram combined_shop, AvgPrice (groupby_mean keys xs)]
                          @ charts @ [BoxPlot mall_subset])))))))
       else Inr (data, []))"

text \<open>Tab 4 (lines 193 to 207).\<close>

fun raw_loop :: "(string \<times> frame) list \<Rightarrow> (string \<times> frame) list \<Rightarrow> string list \<Rightarrow> error + rendered list" where
  "raw_loop blogs shops [] = Inr []"
| "raw_loop blogs shops (kw # kws) =
     (case map_of shops kw of
        None \<Rightarrow> Inl (KeyError kw)
      | Some s \<Rightarrow>
          (case map_of blogs kw of
             None \<Rightarrow> Inl (KeyError kw)
           | Some b \<Rightarrow> and_then (raw_loop blogs shops kws) (\<lambda>rest.
               Inr (RawShop kw s # RawBlog kw b # rest))))"

definition tab_raw ::
  "string list \<Rightarrow> (string \<times> frame) list \<Rightarrow> (string \<times> frame) list \<Rightarrow> frame list \<Rightarrow> error + rendered list"
where
  "tab_raw keywords blogs shops data =
     and_then (if data \<noteq> [] then
                 and_then (price_bins (pd_concat data)) (\<lambda>price_summary.
                   Inr [PriceSummary price_summary])
               else Inr []) (\<lambda>summary.
     and_then (raw_loop blogs shops keywords) (\<lambda>raw. Inr (summary @ raw)))"

text \<open>
  One run, from the keyword input to what is rendered (lines 91 to 207, the credentials
  being set and the button pressed). An exception ends the run.
\<close>

definition run :: "provider \<Rightarrow> string \<Rightarrow> error + rendered list" where
  "run net keyword_input = (let keywords = parse_keywords keyword_input in
     and_then (collect net keywords) (\<lambda>c.
     and_then (tab_trend (trend_df c)) (\<lambda>o1.
     and_then (tab_eda keywords (shop_dfs c)) (\<lambda>r2.
     and_then (tab_viz keywords (blog_dfs c) (fst r2)) (\<lambda>r3.
     and_then (tab_raw keywords (blog_dfs c) (fst r2) (fst r3)) (\<lambda>o4.
       Inr (o1 @ snd r2 @ snd r3 @ o4)))))))"

text \<open>The keywords for which salience charts were rendered, in order.\<close>

fun charted :: "rendered list \<Rightarrow> string list" where
  "charted [] = []"
| "charted (SalienceChart kw words_df # outs) = kw # charted outs"
| "charted (out # outs) = charted outs"

section \<open>Example data\<close>

text \<open>
  A trend body with two groups of two monthly entries, in the layout the provider
  documents, and a shop and a blog body for one keyword.
\<close>

definition trend_groups :: "jvalue list" where
  "trend_groups =
     [JObj [(''title'', JStr ''omega3''), (''keyword'', JArr [JStr ''omega3'']),
            (''data'', JArr [JObj [(''period'', JStr ''2024-01-01''), (''ratio'', JNum 10)],
                             JObj [(''period'', JStr ''2024-02-01''), (''ratio'', JNum 25)]])],
      JObj [(''title'', JStr ''vitaminD''), (''keyword'', JArr [JStr ''vitaminD'']),
            (''data'', JArr [JObj [(''period'', JStr ''2024-01-01''), (''ratio'', JNum 100)],
                             JObj [(''period'', JStr ''2024-02-01''), (''ratio'', JNum 7)]])]]"

definition trend_body :: jvalue where
  "trend_body = JObj [(''startDate'', JStr ''2023-03-01''), (''endDate'', JStr ''2024-02-29''),
                      (''timeUnit'', JStr ''month''), (''results'', JArr trend_groups)]"

definition shop_body :: jvalue where
  "shop_body = JObj [(''total'', JNum 2), (''items'', JArr
     [JObj [(''title'', JStr ''Omega 3 soft gel''), (''lprice'', JStr ''12000''),
            (''mallName'', JStr ''mall A'')],
      JObj [(''title'', JStr ''Omega 3 sample''), (''lprice'', JStr ''N/A''),
            (''mallName'', JStr ''mall A'')]])]"

definition blog_body :: jvalue where
  "blog_body = JObj [(''total'', JNum 1), (''items'', JArr
     [JObj [(''title'', JStr ''Omega review''), (''description'', JStr ''fish oil review'')]])]"

text \<open>The fields of a group and of an entry, read back from the decoded body.\<close>

definition the_title :: "jvalue \<Rightarrow> jvalue" where
  "the_title g = (case getitem g ''title'' of Inr v \<Rightarrow> v | Inl e \<Rightarrow> JNull)"

definition the_entries :: "jvalue \<Rightarrow> jvalue list" where
  "the_entries g = (case getitem g ''data'' of Inr (JArr es) \<Rightarrow> es | _ \<Rightarrow> [])"

definition the_period :: "jvalue \<Rightarrow> jvalue" where
  "the_period e = (case getitem e ''period'' of Inr v \<Rightarrow> v | Inl e \<Rightarrow> JNull)"

definition the_ratio :: "jvalue \<Rightarrow> jvalue" where
  "the_ratio e = (case getitem e ''ratio'' of Inr v \<Rightarrow> v | Inl e \<Rightarrow> JNull)"

text \<open>The frames built from the example bodies.\<close>

definition trend_frame :: frame where
  "trend_frame = \<lparr>nrows = 4,
     cols = [(''period'', [Str ''2024-01-01'', Str ''2024-02-01'', Str ''2024-01-01'', Str ''2024-02-01'']),
             (''ratio'', [Num 10, Num 25, Num 100, Num 7]),
             (''keyword'', [Str ''omega3'', Str ''omega3'', Str ''vitaminD'', Str ''vitaminD''])]\<rparr>"

definition shop_frame :: frame where
  "shop_frame = \<lparr>nrows = 2,
     cols = [(''title'', [Str ''Omega 3 soft gel'', Str ''Omega 3 sample'']),
             (''lprice'', [Str ''12000'', Str ''N/A'']),
             (''mallName'', [Str ''mall A'', Str ''mall A''])]\<rparr>"

definition blog_frame :: frame where
  "blog_frame = \<lparr>nrows = 1,
     cols = [(''title'', [Str ''Omega review'']), (''description'', [Str ''fish oil review''])]\<rparr>"

text \<open>
  Providers for the examples: one that answers every request with status 200 and the
  example bodies; one whose shop searches fail with status 500; one whose only good
  answer is the shop search; one that answers every request with status 200 and a body
  that is not parseable JSON; one whose blog body for the first keyword is not parseable.
\<close>

definition ok_net :: provider where
  "ok_net i r = (case r of
      TrendRequest kws \<Rightarrow> \<lparr>status_code = 200, json = Some trend_body\<rparr>
    | SearchRequest api_type kw n \<Rightarrow>
        (if api_type = ''blog'' then \<lparr>status_code = 200, json = Some blog_body\<rparr>
         else \<lparr>status_code = 200, json = Some shop_body\<rparr>))"

definition no_shop_net :: provider where
  "no_shop_net i r = (case r of
      TrendRequest kws \<Rightarrow> \<lparr>status_code = 200, json = Some trend_body\<rparr>
    | SearchRequest api_type kw n \<Rightarrow>
        (if api_type = ''blog'' then \<lparr>status_code = 200, json = Some blog_body\<rparr>
         else \<lparr>status_code = 500, json = None\<rparr>))"

definition shop_only_net :: provider where
  "shop_only_net i r = (case r of
      TrendRequest kws \<Rightarrow> \<lparr>status_code = 500, json = None\<rparr>
    | SearchRequest api_type kw n \<Rightarrow>
        (if api_type = ''shop'' then \<lparr>status_code = 200, json = Some shop_body\<rparr>
         else \<lparr>status_code = 404, json = None\<rparr>))"

definition unparseable_net :: provider where
  "unparseable_net i r = \<lparr>status_code = 200, json = None\<rparr>"

definition bad_json_net :: provider where
  "bad_json_net i r = (case r of
      TrendRequest kws \<Rightarrow> \<lparr>status_code = 200, json = Some trend_body\<rparr>
    | SearchRequest api_type kw n \<Rightarrow>
        (if api_type = ''blog'' \<and> kw = ''omega3'' then \<lparr>status_code = 200, json = None\<rparr>
         else \<lparr>status_code = 200, json = Some shop_body\<rparr>))"

text \<open>
  The example shop frame after the coercion of line 138, and its copy in
  \<^verbatim>\<open>all_shop_data\<close> for the keyword \<open>omega3\<close>.
\<close>

definition coerced_frame :: frame where
  "coerced_frame = \<lparr>nrows = 2,
     cols = [(''title'', [Str ''Omega 3 soft gel'', Str ''Omega 3 sample'']),
             (''lprice'', [Num 12000, NA]),
             (''mallName'', [Str ''mall A'', Str ''mall A''])]\<rparr>"

definition tagged_frame :: frame where
  "tagged_frame = \<lparr>nrows = 2,
     cols = [(''title'', [Str ''Omega 3 soft gel'', Str ''Omega 3 sample'']),
             (''lprice'', [Num 12000, NA]),
             (''mallName'', [Str ''mall A'', Str ''mall A'']),
             (''keyword'', [Str ''omega3'', Str ''omega3''])]\<rparr>"




text \<open>
  A trend body in which the same title and period occur twice, as when a keyword is
  entered twice, and the frame built from it.
\<close>

definition duplicate_body :: jvalue where
  "duplicate_body = JObj [(''results'', JArr
     [JObj [(''title'', JStr ''omega3''),
            (''data'', JArr [JObj [(''period'', JStr ''2024-01-01''), (''ratio'', JNum 10)]])],
      JObj [(''title'', JStr ''omega3''),
            (''data'', JArr [JObj [(''period'', JStr ''2024-01-01''), (''ratio'', JNum 10)]])]])]"

definition duplicate_frame :: frame where
  "duplicate_frame = \<lparr>nrows = 2,
     cols = [(''period'', [Str ''2024-01-01'', Str ''2024-01-01'']),
             (''ratio'', [Num 10, Num 10]),
             (''keyword'', [Str ''omega3'', Str ''omega3''])]\<rparr>"

text \<open>
  Trend records in which one keyword lacks a month, the frame built from them and its
  pivot table.
\<close>

definition sparse_points :: "trend_point list" where
  "sparse_points =
     [\<lparr>period = JStr ''2024-01-01'', ratio = JNum 10, keyword = JStr ''omega3''\<rparr>,
      \<lparr>period = JStr ''2024-02-01'', ratio = JNum 25, keyword = JStr ''omega3''\<rparr>,
      \<lparr>period = JStr ''2024-01-01'', ratio = JNum 100, keyword = JStr ''vitaminD''\<rparr>]"

definition sparse_frame :: frame where
  "sparse_frame = \<lparr>nrows = 3,
     cols = [(''period'', [Str ''2024-01-01'', Str ''2024-02-01'', Str ''2024-01-01'']),
             (''ratio'', [Num 10, Num 25, Num 100]),
             (''keyword'', [Str ''omega3'', Str ''omega3'', Str ''vitaminD''])]\<rparr>"

definition sparse_pivot :: pivot_table where
  "sparse_pivot = \<lparr>row_labels = [Str ''2024-01-01'', Str ''2024-02-01''],
     col_labels = [Str ''omega3'', Str ''vitaminD''],
     table = [[Num 10, Num 100], [Num 25, NA]]\<rparr>"

text \<open>
  A document with 22 tokens, 21 of them distinct, \<open>aa\<close> occurring twice; and its tokens.
\<close>

definition crowded_document :: string where
  "crowded_document = ''aa aa ab ac ad ae af ag ah ai aj ak al am an ao ap aq ar as at au''"

definition crowded_tokens :: "string list" where
  "crowded_tokens = [''aa'', ''aa'', ''ab'', ''ac'', ''ad'', ''ae'', ''af'', ''ag'', ''ah'', ''ai'', ''aj'',
     ''ak'', ''al'', ''am'', ''an'', ''ao'', ''ap'', ''aq'', ''ar'', ''as'', ''at'', ''au'']"

text \<open>
  A blog body whose only item has no token of two or more word characters, and its frame.
\<close>

definition terse_body :: jvalue where
  "terse_body = JObj [(''total'', JNum 1), (''items'', JArr
     [JObj [(''title'', JStr ''Q&A''), (''description'', JStr [])]])]"

definition terse_frame :: frame where
  "terse_frame = \<lparr>nrows = 1, cols = [(''title'', [Str ''Q&A'']), (''description'', [Str []])]\<rparr>"

section \<open>Properties of the API client and the normalizer\<close>

lemma entries_loop_map:
  assumes "\<forall>e \<in> set es. getitem e ''period'' = Inr (period_of e) \<and> getitem e ''ratio'' = Inr (ratio_of e)"
  shows "entries_loop g es =
    Inr (map (\<lambda>e. \<lparr>period = period_of e, ratio = ratio_of e, keyword = g\<rparr>) es)"
  using assms by (induction es) simp_all

lemma groups_loop_concat:
  assumes "\<forall>g \<in> set gs. getitem g ''title'' = Inr (title_of g) \<and> getitem g ''data'' = Inr (JArr (entries_of g))"
    and "\<forall>g \<in> set gs. \<forall>e \<in> set (entries_of g).
           getitem e ''period'' = Inr (period_of e) \<and> getitem e ''ratio'' = Inr (ratio_of e)"
  shows "groups_loop gs =
    Inr (concat (map (\<lambda>g. map (\<lambda>e. \<lparr>period = period_of e, ratio = ratio_of e, keyword = title_of g\<rparr>)
                              (entries_of g)) gs))"
  using assms
proof (induction gs)
  case Nil
  show ?case by simp
next
  case (Cons g gs)
  have head: "entries_loop (title_of g) (entries_of g) =
      Inr (map (\<lambda>e. \<lparr>period = period_of e, ratio = ratio_of e, keyword = title_of g\<rparr>) (entries_of g))"
    using Cons.prems(2) by (intro entries_loop_map) simp
  have tail: "groups_loop gs =
      Inr (concat (map (\<lambda>g. map (\<lambda>e. \<lparr>period = period_of e, ratio = ratio_of e, keyword = title_of g\<rparr>)
                              (entries_of g)) gs))"
    using Cons.prems by (intro Cons.IH) simp_all
  from Cons.prems(1) have "getitem g ''title'' = Inr (title_of g)"
    and "getitem g ''data'' = Inr (JArr (entries_of g))" by simp_all
  with head tail show ?case by simp
qed

lemma length_concat_const:
  assumes "\<forall>x \<in> set xs. length (f x) = P"
  shows "length (concat (map f xs)) = length xs * P"
  using assms by (induction xs) simp_all

lemma DataFrame_records_nrows:
  "DataFrame_records records = Inr df \<Longrightarrow> nrows df = length records"
  by (auto simp: DataFrame_records_def and_then_eq_Inr)

text \<open>
  Claim C1. When the HTTP response of a call has a status other than 200 (every non-success
  status is one), \<^verbatim>\<open>fetch_shopping_trend\<close> and \<^verbatim>\<open>fetch_search_results\<close> return the empty
  frame \<open>pd.DataFrame()\<close>: a value, not an exception, with no row and no column, whatever
  the body of the response holds.
\<close>

theorem fetch_non_200_empty:
  "(status_code (net i (TrendRequest keywords)) \<noteq> 200 \<longrightarrow>
      fetch_shopping_trend net i keywords = Inr empty_frame)
   \<and> (status_code (net j (SearchRequest api_type kw 50)) \<noteq> 200 \<longrightarrow>
      fetch_search_results net j api_type kw = Inr empty_frame)
   \<and> df_empty empty_frame \<and> nrows empty_frame = 0 \<and> cols empty_frame = []"
  by (simp add: fetch_shopping_trend_def fetch_search_results_def trend_of_response_def
      search_of_response_def empty_frame_def df_empty_def)

theorem fetch_non_200_empty_witness:
  "status_code ((\<lambda>i r. \<lparr>status_code = 503, json = Some (JObj [(''items'', JArr [JObj [(''title'', JStr ''a'')]])])\<rparr>)
       0 (TrendRequest [''a''])) \<noteq> 200
   \<and> fetch_shopping_trend (\<lambda>i r. \<lparr>status_code = 503, json = Some (JObj [(''items'', JArr [JObj [(''title'', JStr ''a'')]])])\<rparr>)
       0 [''a''] = Inr empty_frame
   \<and> status_code ((\<lambda>i r. \<lparr>status_code = 503, json = Some (JObj [(''items'', JArr [JObj [(''title'', JStr ''a'')]])])\<rparr>)
       1 (SearchRequest ''blog'' ''a'' 50)) \<noteq> 200
   \<and> fetch_search_results (\<lambda>i r. \<lparr>status_code = 503, json = Some (JObj [(''items'', JArr [JObj [(''title'', JStr ''a'')]])])\<rparr>)
       1 ''blog'' ''a'' = Inr empty_frame"
  using fetch_non_200_empty [of
      "\<lambda>i r. \<lparr>status_code = 503, json = Some (JObj [(''items'', JArr [JObj [(''title'', JStr ''a'')]])])\<rparr>"
      0 "[''a'']" 1 "''blog''" "''a''"]
  by simp

text \<open>
  Claim C2. Let the response have status 200 and a decoded body whose \<open>results\<close> entry is
  a list of \<open>G\<close> groups, each a dict with a \<open>title\<close> and a \<open>data\<close> list of \<open>P\<close> entries, each
  entry a dict with a \<open>period\<close> and a \<open>ratio\<close>. Then the flattening loop of
  \<^verbatim>\<open>fetch_shopping_trend\<close> builds exactly the records
  \<open>{period, ratio, keyword = title of the group}\<close>, one per entry, group after group and
  entry after entry in the provider's order: nothing is filtered, merged or reordered,
  and there are \<open>G * P\<close> of them. The frame returned is \<open>pd.DataFrame\<close> of these records
  and has \<open>G * P\<close> rows.
\<close>

theorem normalizer_G_times_P:
  assumes "status_code resp = 200"
    and "json resp = Some data"
    and "getitem data ''results'' = Inr (JArr gs)"
    and "\<forall>g \<in> set gs. getitem g ''title'' = Inr (title_of g)
           \<and> getitem g ''data'' = Inr (JArr (entries_of g))
           \<and> length (entries_of g) = P"
    and "\<forall>g \<in> set gs. \<forall>e \<in> set (entries_of g).
           getitem e ''period'' = Inr (period_of e) \<and> getitem e ''ratio'' = Inr (ratio_of e)"
  defines "results \<equiv> concat (map (\<lambda>g. map (\<lambda>e. \<lparr>period = period_of e, ratio = ratio_of e,
                                                keyword = title_of g\<rparr>) (entries_of g)) gs)"
  shows "normalizer data = Inr results
    \<and> length results = length gs * P
    \<and> trend_of_response resp = DataFrame_records (map point_dict results)
    \<and> (\<forall>df. trend_of_response resp = Inr df \<longrightarrow> nrows df = length gs * P)"
proof -
  have loop: "groups_loop gs = Inr results"
    unfolding results_def using assms(4,5) by (intro groups_loop_concat) simp_all
  with assms(3) have norm: "normalizer data = Inr results"
    by (simp add: normalizer_def)
  have len: "length results = length gs * P"
    unfolding results_def using assms(4) by (intro length_concat_const) simp
  from norm assms(1,2) have fr: "trend_of_response resp = DataFrame_records (map point_dict results)"
    by (simp add: trend_of_response_def)
  have "\<forall>df. trend_of_response resp = Inr df \<longrightarrow> nrows df = length gs * P"
    using fr len DataFrame_records_nrows [of "map point_dict results"] by simp
  with norm len fr show ?thesis by simp
qed

theorem normalizer_G_times_P_witness:
  "status_code \<lparr>status_code = 200, json = Some trend_body\<rparr> = 200
   \<and> getitem trend_body ''results'' = Inr (JArr trend_groups)
   \<and> length trend_groups = 2
   \<and> normalizer trend_body =
       Inr [\<lparr>period = JStr ''2024-01-01'', ratio = JNum 10, keyword = JStr ''omega3''\<rparr>,
            \<lparr>period = JStr ''2024-02-01'', ratio = JNum 25, keyword = JStr ''omega3''\<rparr>,
            \<lparr>period = JStr ''2024-01-01'', ratio = JNum 100, keyword = JStr ''vitaminD''\<rparr>,
            \<lparr>period = JStr ''2024-02-01'', ratio = JNum 7, keyword = JStr ''vitaminD''\<rparr>]
   \<and> trend_of_response \<lparr>status_code = 200, json = Some trend_body\<rparr> =
       Inr \<lparr>nrows = 2 * 2,
            cols = [(''period'', [Str ''2024-01-01'', Str ''2024-02-01'', Str ''2024-01-01'', Str ''2024-02-01'']),
                    (''ratio'', [Num 10, Num 25, Num 100, Num 7]),
                    (''keyword'', [Str ''omega3'', Str ''omega3'', Str ''vitaminD'', Str ''vitaminD''])]\<rparr>"
  using normalizer_G_times_P [of "\<lparr>status_code = 200, json = Some trend_body\<rparr>" trend_body
      trend_groups the_title the_entries 2 the_period the_ratio]
  by (simp add: trend_body_def trend_groups_def the_title_def the_entries_def the_period_def
      the_ratio_def DataFrame_records_def point_dict_def)

section \<open>Properties of the data collection\<close>

lemma dict_set_keys:
  "map fst (dict_set d k v) = (if k \<in> set (map fst d) then map fst d else map fst d @ [k])"
  by (induction d k v rule: dict_set.induct) auto

lemma set_unique [simp]: "set (unique xs) = set xs"
  by (induction xs rule: unique.induct) auto

lemma distinct_unique [simp]: "distinct (unique xs)"
  by (induction xs rule: unique.induct) auto

lemma length_unique: "length (unique xs) = card (set xs)"
  using distinct_card [of "unique xs"] by simp

lemma search_all_keys:
  "search_all net i api_type kws d = Inr d' \<Longrightarrow>
     map fst d' = map fst d @ unique (filter (\<lambda>k. k \<notin> set (map fst d)) kws)"
proof (induction kws arbitrary: i d)
  case Nil
  then show ?case by simp
next
  case (Cons kw kws)
  from Cons.prems obtain df where
    rest: "search_all net (Suc i) api_type kws (dict_set d kw df) = Inr d'"
    by (auto simp: and_then_eq_Inr)
  note ih = Cons.IH [OF rest]
  show ?case
  proof (cases "kw \<in> set (map fst d)")
    case True
    with ih show ?thesis by (simp add: dict_set_keys)
  next
    case False
    have "filter (\<lambda>k. k \<noteq> kw \<and> k \<notin> fst ` set d) kws
        = filter (\<lambda>x. x \<notin> fst ` set d \<and> x \<noteq> kw) kws"
      by (rule filter_cong) auto
    with False ih show ?thesis by (simp add: dict_set_keys)
  qed
qed

lemma search_all_keys_empty:
  "search_all net i api_type kws [] = Inr d' \<Longrightarrow> map fst d' = unique kws"
  using search_all_keys [of net i api_type kws "[]" d'] by simp

lemma parse_keywords_alt:
  "parse_keywords keyword_input =
     filter (\<lambda>k. k \<noteq> []) (map strip (split keyword_input CHR '',''))"
  by (simp add: parse_keywords_def filter_map comp_def)

text \<open>
  Claim C9. When the data collection of a run returns, the keys of the blog mapping and of
  the shop mapping are, in this order, the distinct keywords of the input: the input
  split at commas, each piece stripped of surrounding blanks, the empty pieces dropped,
  and each keyword kept at its first occurrence only (the dict comprehensions of lines
  102 and 103 store a repeated keyword once). Each mapping has as many keys as there are
  distinct keywords.
\<close>

theorem result_set_keys:
  assumes "collect net (parse_keywords keyword_input) = Inr c"
  shows "map fst (blog_dfs c) = unique (parse_keywords keyword_input)
    \<and> map fst (shop_dfs c) = unique (parse_keywords keyword_input)
    \<and> length (blog_dfs c) = card (set (parse_keywords keyword_input))
    \<and> length (shop_dfs c) = card (set (parse_keywords keyword_input))
    \<and> distinct (unique (parse_keywords keyword_input))
    \<and> set (unique (parse_keywords keyword_input)) = set (parse_keywords keyword_input)
    \<and> filter (\<lambda>k. k \<noteq> []) (map strip (split keyword_input CHR '','')) =
        parse_keywords keyword_input"
proof -
  let ?kws = "parse_keywords keyword_input"
  from assms obtain t b s where
    b: "search_all net 1 ''blog'' ?kws [] = Inr b" and
    s: "search_all net (1 + length ?kws) ''shop'' ?kws [] = Inr s" and
    c: "c = \<lparr>trend_df = t, blog_dfs = b, shop_dfs = s\<rparr>"
    unfolding collect_def and_then_eq_Inr by blast
  have kb: "map fst (blog_dfs c) = unique ?kws"
    using search_all_keys_empty [OF b] c by simp
  have ks: "map fst (shop_dfs c) = unique ?kws"
    using search_all_keys_empty [OF s] c by simp
  have lb: "length (blog_dfs c) = card (set ?kws)"
    using arg_cong [OF kb, of length] by (simp add: length_unique)
  have ls: "length (shop_dfs c) = card (set ?kws)"
    using arg_cong [OF ks, of length] by (simp add: length_unique)
  from kb ks lb ls parse_keywords_alt [of keyword_input, symmetric] show ?thesis by simp
qed

lemma trend_body_frame:
  "trend_of_response \<lparr>status_code = 200, json = Some trend_body\<rparr> = Inr trend_frame"
  by (simp add: trend_of_response_def trend_body_def trend_groups_def normalizer_def
      DataFrame_records_def point_dict_def trend_frame_def)

lemma shop_body_frame:
  "search_of_response \<lparr>status_code = 200, json = Some shop_body\<rparr> = Inr shop_frame"
  by (simp add: search_of_response_def shop_body_def DataFrame_records_def shop_frame_def)

lemma blog_body_frame:
  "search_of_response \<lparr>status_code = 200, json = Some blog_body\<rparr> = Inr blog_frame"
  by (simp add: search_of_response_def blog_body_def DataFrame_records_def blog_frame_def)

lemma parse_example:
  "parse_keywords ''omega3, vitaminD ,, omega3'' = [''omega3'', ''vitaminD'', ''omega3'']"
  by (simp add: parse_keywords_def split_def strip_def isspace_def)

lemma collect_ok_net:
  "collect ok_net [''omega3'', ''vitaminD'', ''omega3''] =
     Inr \<lparr>trend_df = trend_frame,
          blog_dfs = [(''omega3'', blog_frame), (''vitaminD'', blog_frame)],
          shop_dfs = [(''omega3'', shop_frame), (''vitaminD'', shop_frame)]\<rparr>"
  by (simp add: collect_def fetch_shopping_trend_def fetch_search_results_def ok_net_def
      trend_body_frame shop_body_frame blog_body_frame)

theorem result_set_keys_witness:
  "collect ok_net (parse_keywords ''omega3, vitaminD ,, omega3'') =
     Inr \<lparr>trend_df = trend_frame,
          blog_dfs = [(''omega3'', blog_frame), (''vitaminD'', blog_frame)],
          shop_dfs = [(''omega3'', shop_frame), (''vitaminD'', shop_frame)]\<rparr>
   \<and> unique (parse_keywords ''omega3, vitaminD ,, omega3'') = [''omega3'', ''vitaminD'']
   \<and> card (set (parse_keywords ''omega3, vitaminD ,, omega3'')) = 2"
proof -
  have c: "collect ok_net (parse_keywords ''omega3, vitaminD ,, omega3'') =
     Inr \<lparr>trend_df = trend_frame,
          blog_dfs = [(''omega3'', blog_frame), (''vitaminD'', blog_frame)],
          shop_dfs = [(''omega3'', shop_frame), (''vitaminD'', shop_frame)]\<rparr>"
    by (simp add: parse_example collect_ok_net)
  from result_set_keys [OF c]
  have "[''omega3'', ''vitaminD''] = unique (parse_keywords ''omega3, vitaminD ,, omega3'')"
    and "2 = card (set (parse_keywords ''omega3, vitaminD ,, omega3''))"
    by simp_all
  with c show ?thesis by simp
qed

lemma search_all_fails:
  "j < length kws \<Longrightarrow> fetch_search_results net (i + j) api_type (kws ! j) = Inl e \<Longrightarrow>
     \<exists>e'. search_all net i api_type kws d = Inl e'"
proof (induction kws arbitrary: i j d)
  case Nil
  then show ?case by simp
next
  case (Cons kw kws)
  show ?case
  proof (cases "fetch_search_results net i api_type kw")
    case (Inl e0)
    then show ?thesis by simp
  next
    case (Inr df)
    show ?thesis
    proof (cases j)
      case 0
      with Cons.prems Inr show ?thesis by simp
    next
      case (Suc j')
      with Cons.prems have "j' < length kws"
        and "fetch_search_results net (Suc i + j') api_type (kws ! j') = Inl e"
        by simp_all
      from Cons.IH [OF this] Inr show ?thesis by simp
    qed
  qed
qed

lemma run_collect_fails:
  "collect net (parse_keywords keyword_input) = Inl e \<Longrightarrow> run net keyword_input = Inl e"
  by (simp add: run_def)

lemma json_none_raises:
  "status_code resp = 200 \<Longrightarrow> json resp = None \<Longrightarrow>
     trend_of_response resp = Inl JSONDecodeError \<and> search_of_response resp = Inl JSONDecodeError"
  by (simp add: trend_of_response_def search_of_response_def)

text \<open>
  Claim C7, as the code has it. A response with status 200 whose body is not parseable
  JSON makes \<^verbatim>\<open>fetch_shopping_trend\<close> and \<^verbatim>\<open>fetch_search_results\<close> raise
  \<open>JSONDecodeError\<close>; they do not return an empty frame. Nothing in the program catches
  the exception: when the trend response, or the blog or shop response for some keyword
  of the list, is such a response, the data collection returns no result set, and a run
  whose collection raises ends with the same exception, before any tab is rendered.
\<close>

theorem malformed_json_raises:
  "(status_code resp = 200 \<and> json resp = None \<longrightarrow>
      trend_of_response resp = Inl JSONDecodeError \<and> search_of_response resp = Inl JSONDecodeError)
   \<and> (status_code (net 0 (TrendRequest kws)) = 200 \<and> json (net 0 (TrendRequest kws)) = None \<longrightarrow>
      collect net kws = Inl JSONDecodeError)
   \<and> (j < length kws \<and> status_code (net (1 + j) (SearchRequest ''blog'' (kws ! j) 50)) = 200
        \<and> json (net (1 + j) (SearchRequest ''blog'' (kws ! j) 50)) = None \<longrightarrow>
      (\<exists>e. collect net kws = Inl e))
   \<and> (j < length kws
        \<and> status_code (net (1 + length kws + j) (SearchRequest ''shop'' (kws ! j) 50)) = 200
        \<and> json (net (1 + length kws + j) (SearchRequest ''shop'' (kws ! j) 50)) = None \<longrightarrow>
      (\<exists>e. collect net kws = Inl e))
   \<and> (collect net (parse_keywords keyword_input) = Inl e \<longrightarrow> run net keyword_input = Inl e)"
proof (intro conjI impI)
  assume "status_code resp = 200 \<and> json resp = None"
  then show "trend_of_response resp = Inl JSONDecodeError"
    and "search_of_response resp = Inl JSONDecodeError"
    using json_none_raises [of resp] by simp_all
next
  assume "status_code (net 0 (TrendRequest kws)) = 200 \<and> json (net 0 (TrendRequest kws)) = None"
  then show "collect net kws = Inl JSONDecodeError"
    using json_none_raises [of "net 0 (TrendRequest kws)"]
    by (simp add: collect_def fetch_shopping_trend_def)
next
  assume a: "j < length kws \<and> status_code (net (1 + j) (SearchRequest ''blog'' (kws ! j) 50)) = 200
        \<and> json (net (1 + j) (SearchRequest ''blog'' (kws ! j) 50)) = None"
  then have "fetch_search_results net (1 + j) ''blog'' (kws ! j) = Inl JSONDecodeError"
    using json_none_raises [of "net (1 + j) (SearchRequest ''blog'' (kws ! j) 50)"]
    by (simp add: fetch_search_results_def)
  with a obtain e' where "search_all net 1 ''blog'' kws [] = Inl e'"
    using search_all_fails [of j kws net 1 "''blog''" JSONDecodeError "[]"] by auto
  then show "\<exists>e. collect net kws = Inl e"
    by (cases "fetch_shopping_trend net 0 kws") (simp_all add: collect_def)
next
  assume a: "j < length kws
        \<and> status_code (net (1 + length kws + j) (SearchRequest ''shop'' (kws ! j) 50)) = 200
        \<and> json (net (1 + length kws + j) (SearchRequest ''shop'' (kws ! j) 50)) = None"
  then have "fetch_search_results net (1 + length kws + j) ''shop'' (kws ! j) = Inl JSONDecodeError"
    using json_none_raises [of "net (1 + length kws + j) (SearchRequest ''shop'' (kws ! j) 50)"]
    by (simp add: fetch_search_results_def)
  with a obtain e' where s: "search_all net (1 + length kws) ''shop'' kws [] = Inl e'"
    using search_all_fails [of j kws net "1 + length kws" "''shop''" JSONDecodeError "[]"] by auto
  show "\<exists>e. collect net kws = Inl e"
  proof (cases "fetch_shopping_trend net 0 kws")
    case (Inl e0)
    then show ?thesis by (simp add: collect_def)
  next
    case (Inr t)
    with s show ?thesis
      by (cases "search_all net 1 ''blog'' kws []") (simp_all add: collect_def)
  qed
next
  assume "collect net (parse_keywords keyword_input) = Inl e"
  then show "run net keyword_input = Inl e" by (rule run_collect_fails)
qed

lemma parse_two: "parse_keywords ''omega3, vitaminD'' = [''omega3'', ''vitaminD'']"
  by (simp add: parse_keywords_def split_def strip_def isspace_def)

lemma collect_bad_json_net:
  "collect bad_json_net [''omega3'', ''vitaminD''] = Inl JSONDecodeError"
  by (simp add: collect_def fetch_shopping_trend_def fetch_search_results_def bad_json_net_def
      trend_body_frame search_of_response_def)

theorem malformed_json_raises_witness:
  "status_code \<lparr>status_code = 200, json = None\<rparr> = 200
   \<and> json \<lparr>status_code = 200, json = None\<rparr> = None
   \<and> trend_of_response \<lparr>status_code = 200, json = None\<rparr> = Inl JSONDecodeError
   \<and> search_of_response \<lparr>status_code = 200, json = None\<rparr> = Inl JSONDecodeError
   \<and> status_code (unparseable_net 0 (TrendRequest [''omega3'', ''vitaminD''])) = 200
   \<and> json (unparseable_net 0 (TrendRequest [''omega3'', ''vitaminD''])) = None
   \<and> collect unparseable_net [''omega3'', ''vitaminD''] = Inl JSONDecodeError
   \<and> (1::nat) < length [''omega3'', ''vitaminD'']
   \<and> status_code (unparseable_net (1 + 1)
         (SearchRequest ''blog'' ([''omega3'', ''vitaminD''] ! 1) 50)) = 200
   \<and> json (unparseable_net (1 + 1)
         (SearchRequest ''blog'' ([''omega3'', ''vitaminD''] ! 1) 50)) = None
   \<and> status_code (unparseable_net (1 + length [''omega3'', ''vitaminD''] + 1)
         (SearchRequest ''shop'' ([''omega3'', ''vitaminD''] ! 1) 50)) = 200
   \<and> json (unparseable_net (1 + length [''omega3'', ''vitaminD''] + 1)
         (SearchRequest ''shop'' ([''omega3'', ''vitaminD''] ! 1) 50)) = None
   \<and> collect unparseable_net (parse_keywords ''omega3, vitaminD'') = Inl JSONDecodeError
   \<and> run unparseable_net ''omega3, vitaminD'' = Inl JSONDecodeError"
proof -
  note th = malformed_json_raises [of "\<lparr>status_code = 200, json = None\<rparr>" unparseable_net
      "[''omega3'', ''vitaminD'']" 1 "''omega3, vitaminD''" JSONDecodeError]
  have r: "status_code \<lparr>status_code = 200, json = None\<rparr> = 200
      \<and> json \<lparr>status_code = 200, json = None\<rparr> = None"
    by simp
  have h: "status_code (unparseable_net 0 (TrendRequest [''omega3'', ''vitaminD''])) = 200
      \<and> json (unparseable_net 0 (TrendRequest [''omega3'', ''vitaminD''])) = None"
    "(1::nat) < length [''omega3'', ''vitaminD'']
      \<and> status_code (unparseable_net (1 + 1)
            (SearchRequest ''blog'' ([''omega3'', ''vitaminD''] ! 1) 50)) = 200
      \<and> json (unparseable_net (1 + 1)
            (SearchRequest ''blog'' ([''omega3'', ''vitaminD''] ! 1) 50)) = None"
    "(1::nat) < length [''omega3'', ''vitaminD'']
      \<and> status_code (unparseable_net (1 + length [''omega3'', ''vitaminD''] + 1)
            (SearchRequest ''shop'' ([''omega3'', ''vitaminD''] ! 1) 50)) = 200
      \<and> json (unparseable_net (1 + length [''omega3'', ''vitaminD''] + 1)
            (SearchRequest ''shop'' ([''omega3'', ''vitaminD''] ! 1) 50)) = None"
    by (simp_all add: unparseable_net_def)
  from th r have f: "trend_of_response \<lparr>status_code = 200, json = None\<rparr> = Inl JSONDecodeError"
    "search_of_response \<lparr>status_code = 200, json = None\<rparr> = Inl JSONDecodeError"
    by blast+
  from th h(1) have c: "collect unparseable_net [''omega3'', ''vitaminD''] = Inl JSONDecodeError"
    by blast
  then have p: "collect unparseable_net (parse_keywords ''omega3, vitaminD'') = Inl JSONDecodeError"
    by (simp add: parse_two)
  with th have "run unparseable_net ''omega3, vitaminD'' = Inl JSONDecodeError" by blast
  with r h f c p show ?thesis by blast
qed

text \<open>
  The claim as stated fails: the blog search for the first of two keywords answers with
  status 200 and an unparseable body; the call raises instead of returning the empty
  frame, and the collection and the whole run end with \<open>JSONDecodeError\<close>, the searches
  for the second keyword never being made.
\<close>

theorem malformed_json_not_contained:
  "status_code (bad_json_net 1 (SearchRequest ''blog'' ''omega3'' 50)) = 200
   \<and> json (bad_json_net 1 (SearchRequest ''blog'' ''omega3'' 50)) = None
   \<and> fetch_search_results bad_json_net 1 ''blog'' ''omega3'' = Inl JSONDecodeError
   \<and> fetch_search_results bad_json_net 1 ''blog'' ''omega3'' \<noteq> Inr empty_frame
   \<and> collect bad_json_net [''omega3'', ''vitaminD''] = Inl JSONDecodeError
   \<and> parse_keywords ''omega3, vitaminD'' = [''omega3'', ''vitaminD'']
   \<and> run bad_json_net ''omega3, vitaminD'' = Inl JSONDecodeError"
  by (simp add: parse_two collect_bad_json_net run_def fetch_search_results_def
      bad_json_net_def search_of_response_def)

section \<open>Properties of the tabs\<close>

lemma and_then_Inr_id [simp]: "and_then m Inr = m"
  by (cases m) simp_all

lemma get_df_empty:
  "\<forall>kd \<in> set dfs. df_empty (snd kd) \<Longrightarrow> df_empty (get_df dfs kw)"
proof (cases "map_of dfs kw")
  case None
  then show ?thesis by (simp add: get_df_def df_empty_def empty_frame_def)
next
  case (Some df)
  assume a: "\<forall>kd \<in> set dfs. df_empty (snd kd)"
  from Some have "(kw, df) \<in> set dfs" by (rule map_of_SomeD)
  with a have "df_empty df" by force
  with Some show ?thesis by (simp add: get_df_def)
qed

lemma all_shop_data_all_empty:
  "\<forall>kd \<in> set shops. df_empty (snd kd) \<Longrightarrow> all_shop_data shops = Inr []"
  by (induction shops rule: all_shop_data.induct) simp_all

lemma all_shop_data_Nil_iff:
  "all_shop_data shops = Inr data \<Longrightarrow> data = [] \<longleftrightarrow> (\<forall>kd \<in> set shops. df_empty (snd kd))"
proof (induction shops arbitrary: data rule: all_shop_data.induct)
  case 1
  then show ?case by simp
next
  case (2 kw df items)
  show ?case
  proof (cases "df_empty df")
    case True
    with 2 show ?thesis by simp
  next
    case False
    with "2.prems" show ?thesis by (auto simp: and_then_eq_Inr)
  qed
qed

lemma tab_eda_all_empty:
  "\<forall>kd \<in> set shops. df_empty (snd kd) \<Longrightarrow> tab_eda kws shops = Inr (shops, [])"
proof (induction kws)
  case Nil
  show ?case by simp
next
  case (Cons kw kws)
  from Cons.prems have "df_empty (get_df shops kw)" by (rule get_df_empty)
  with Cons show ?case by simp
qed

lemma tab_viz_all_empty:
  "\<forall>kd \<in> set shops. df_empty (snd kd) \<Longrightarrow> tab_viz keywords blogs shops = Inr ([], [])"
  by (simp add: tab_viz_def all_shop_data_all_empty)

lemma tab_raw_no_data: "tab_raw keywords blogs shops [] = raw_loop blogs shops keywords"
  by (simp add: tab_raw_def)

lemma get_df_Some: "map_of dfs kw = Some df \<Longrightarrow> get_df dfs kw = df"
  by (simp add: get_df_def)

lemma raw_loop_all:
  assumes "set kws \<subseteq> fst ` set blogs" and "set kws \<subseteq> fst ` set shops"
  shows "raw_loop blogs shops kws =
    Inr (concat (map (\<lambda>kw. [RawShop kw (get_df shops kw), RawBlog kw (get_df blogs kw)]) kws))"
  using assms
proof (induction kws)
  case Nil
  show ?case by simp
next
  case (Cons kw kws)
  from Cons.prems obtain s where s: "map_of shops kw = Some s"
    by (cases "map_of shops kw") (auto simp: map_of_eq_None_iff)
  from Cons.prems obtain b where b: "map_of blogs kw = Some b"
    by (cases "map_of blogs kw") (auto simp: map_of_eq_None_iff)
  from Cons have "raw_loop blogs shops kws =
    Inr (concat (map (\<lambda>kw. [RawShop kw (get_df shops kw), RawBlog kw (get_df blogs kw)]) kws))"
    by simp
  with s b show ?case by (simp add: get_df_Some)
qed

lemma collect_keys:
  assumes "collect net kws = Inr c"
  shows "fst ` set (blog_dfs c) = set kws" and "fst ` set (shop_dfs c) = set kws"
proof -
  from assms obtain t b s where
    b: "search_all net 1 ''blog'' kws [] = Inr b" and
    s: "search_all net (1 + length kws) ''shop'' kws [] = Inr s" and
    c: "c = \<lparr>trend_df = t, blog_dfs = b, shop_dfs = s\<rparr>"
    unfolding collect_def and_then_eq_Inr by blast
  from search_all_keys_empty [OF b] have "set (map fst b) = set (unique kws)" by simp
  with c show "fst ` set (blog_dfs c) = set kws" by simp
  from search_all_keys_empty [OF s] have "set (map fst s) = set (unique kws)" by simp
  with c show "fst ` set (shop_dfs c) = set kws" by simp
qed

text \<open>
  Claim C6. When every keyword's shop frame is empty, \<^verbatim>\<open>all_shop_data\<close> stays the empty
  list and the combined shop view is never built. Tab 2 renders no price statistics and no
  mall frequencies and leaves the stored frames as they are; tab 3 renders nothing (no
  histogram, no mean price per keyword, no mall box plot); tab 4 skips the price-bin
  table and only shows the raw frames. None of these steps raises: a run whose collection
  and trend tab succeed returns what the trend tab rendered followed by the raw frames.
\<close>

theorem empty_shops_skip_aggregation:
  assumes "\<forall>kd \<in> set shops. df_empty (snd kd)"
  shows "all_shop_data shops = Inr []
    \<and> tab_eda keywords shops = Inr (shops, [])
    \<and> tab_viz keywords blogs shops = Inr ([], [])
    \<and> tab_raw keywords blogs shops [] = raw_loop blogs shops keywords
    \<and> (collect net (parse_keywords keyword_input) = Inr c \<and> shop_dfs c = shops
          \<and> tab_trend (trend_df c) = Inr shown \<longrightarrow>
        run net keyword_input =
          Inr (shown @ concat (map (\<lambda>kw. [RawShop kw (get_df shops kw),
                                           RawBlog kw (get_df (blog_dfs c) kw)])
                                   (parse_keywords keyword_input))))"
proof -
  note e = tab_eda_all_empty [OF assms] and v = tab_viz_all_empty [OF assms]
  have "run net keyword_input =
          Inr (shown @ concat (map (\<lambda>kw. [RawShop kw (get_df shops kw),
                                           RawBlog kw (get_df (blog_dfs c) kw)])
                                   (parse_keywords keyword_input)))"
    if c: "collect net (parse_keywords keyword_input) = Inr c" and s: "shop_dfs c = shops"
      and t: "tab_trend (trend_df c) = Inr shown"
  proof -
    have "raw_loop (blog_dfs c) shops (parse_keywords keyword_input) =
      Inr (concat (map (\<lambda>kw. [RawShop kw (get_df shops kw), RawBlog kw (get_df (blog_dfs c) kw)])
                       (parse_keywords keyword_input)))"
      using collect_keys [OF c] s by (intro raw_loop_all) simp_all
    with c s t e v show ?thesis
      by (simp add: run_def tab_raw_no_data)
  qed
  with all_shop_data_all_empty [OF assms] e v show ?thesis
    by (simp add: tab_raw_no_data)
qed



lemma pivot_trend_frame:
  "pivot trend_frame ''period'' ''keyword'' ''ratio'' =
     Inr \<lparr>row_labels = [Str ''2024-01-01'', Str ''2024-02-01''],
          col_labels = [Str ''omega3'', Str ''vitaminD''],
          table = [[Num 10, Num 100], [Num 25, Num 7]]\<rparr>"
  by (simp add: pivot_def trend_frame_def getcol_def sort_labels_def)

lemma parse_one: "parse_keywords ''omega3'' = [''omega3'']"
  by (simp add: parse_keywords_def split_def strip_def isspace_def)

lemma search_failed_status:
  "search_of_response \<lparr>status_code = 500, json = None\<rparr> = Inr empty_frame"
  "search_of_response \<lparr>status_code = 404, json = None\<rparr> = Inr empty_frame"
  "trend_of_response \<lparr>status_code = 500, json = None\<rparr> = Inr empty_frame"
  by (simp_all add: search_of_response_def trend_of_response_def)

lemma collect_no_shop_net:
  "collect no_shop_net [''omega3''] =
     Inr \<lparr>trend_df = trend_frame, blog_dfs = [(''omega3'', blog_frame)],
          shop_dfs = [(''omega3'', empty_frame)]\<rparr>"
  by (simp add: collect_def fetch_shopping_trend_def fetch_search_results_def no_shop_net_def
      trend_body_frame blog_body_frame search_failed_status)


lemma tab_trend_trend_frame:
  "tab_trend trend_frame =
     Inr [LineChart trend_frame,
          PivotTable \<lparr>row_labels = [Str ''2024-01-01'', Str ''2024-02-01''],
                      col_labels = [Str ''omega3'', Str ''vitaminD''],
                      table = [[Num 10, Num 100], [Num 25, Num 7]]\<rparr>,
          TrendStats trend_frame]"
  by (simp add: tab_trend_def pivot_trend_frame) (simp add: df_empty_def trend_frame_def)

theorem empty_shops_skip_aggregation_witness:
  "df_empty empty_frame
   \<and> collect no_shop_net (parse_keywords ''omega3'') =
       Inr \<lparr>trend_df = trend_frame, blog_dfs = [(''omega3'', blog_frame)],
            shop_dfs = [(''omega3'', empty_frame)]\<rparr>
   \<and> tab_eda [''omega3''] [(''omega3'', empty_frame)] = Inr ([(''omega3'', empty_frame)], [])
   \<and> tab_viz [''omega3''] [(''omega3'', blog_frame)] [(''omega3'', empty_frame)] = Inr ([], [])
   \<and> run no_shop_net ''omega3'' =
       Inr [LineChart trend_frame,
            PivotTable \<lparr>row_labels = [Str ''2024-01-01'', Str ''2024-02-01''],
                        col_labels = [Str ''omega3'', Str ''vitaminD''],
                        table = [[Num 10, Num 100], [Num 25, Num 7]]\<rparr>,
            TrendStats trend_frame,
            RawShop ''omega3'' empty_frame, RawBlog ''omega3'' blog_frame]"
proof -
  have e: "df_empty empty_frame" by (simp add: df_empty_def empty_frame_def)
  then have h: "\<forall>kd \<in> set [(''omega3'', empty_frame)]. df_empty (snd kd)" by simp
  have c: "collect no_shop_net (parse_keywords ''omega3'') =
       Inr \<lparr>trend_df = trend_frame, blog_dfs = [(''omega3'', blog_frame)],
            shop_dfs = [(''omega3'', empty_frame)]\<rparr>"
    by (simp add: parse_one collect_no_shop_net)
  from empty_shops_skip_aggregation [OF h, of "[''omega3'']" "[(''omega3'', blog_frame)]"
      no_shop_net "''omega3''"
      "\<lparr>trend_df = trend_frame, blog_dfs = [(''omega3'', blog_frame)],
            shop_dfs = [(''omega3'', empty_frame)]\<rparr>"
      "[LineChart trend_frame,
          PivotTable \<lparr>row_labels = [Str ''2024-01-01'', Str ''2024-02-01''],
                      col_labels = [Str ''omega3'', Str ''vitaminD''],
                      table = [[Num 10, Num 100], [Num 25, Num 7]]\<rparr>,
          TrendStats trend_frame]"]
    c tab_trend_trend_frame
  have "tab_eda [''omega3''] [(''omega3'', empty_frame)] = Inr ([(''omega3'', empty_frame)], [])"
    and "tab_viz [''omega3''] [(''omega3'', blog_frame)] [(''omega3'', empty_frame)] = Inr ([], [])"
    and "run no_shop_net ''omega3'' =
       Inr [LineChart trend_frame,
            PivotTable \<lparr>row_labels = [Str ''2024-01-01'', Str ''2024-02-01''],
                        col_labels = [Str ''omega3'', Str ''vitaminD''],
                        table = [[Num 10, Num 100], [Num 25, Num 7]]\<rparr>,
            TrendStats trend_frame,
            RawShop ''omega3'' empty_frame, RawBlog ''omega3'' blog_frame]"
    by (simp_all add: parse_one get_df_def)
  with e c show ?thesis by simp
qed

lemma charted_append [simp]: "charted (xs @ ys) = charted xs @ charted ys"
  by (induction xs rule: charted.induct) simp_all

lemma salience_loop_charted:
  "salience_loop blogs kws = Inr charts \<Longrightarrow>
     charted charts = filter (\<lambda>kw. \<not> df_empty (get_df blogs kw)) kws"
proof (induction kws arbitrary: charts)
  case Nil
  then show ?case by simp
next
  case (Cons kw kws)
  show ?case
  proof (cases "df_empty (get_df blogs kw)")
    case True
    with Cons show ?thesis by simp
  next
    case False
    with Cons.prems obtain w rest where "salience_loop blogs kws = Inr rest"
      and "charts = SalienceChart kw w # rest"
      by (auto simp: and_then_eq_Inr)
    with Cons.IH False show ?thesis by simp
  qed
qed

lemma tab_viz_charted:
  assumes "tab_viz kws blogs shops = Inr (data, outs)"
  shows "all_shop_data shops = Inr data"
    and "charted outs =
      (if data = [] then [] else filter (\<lambda>kw. \<not> df_empty (get_df blogs kw)) kws)"
proof -
  from assms obtain d where d: "all_shop_data shops = Inr d"
    and r: "(if d \<noteq> [] then
         (let combined_shop = pd_concat d in
          and_then (getcol combined_shop ''keyword'') (\<lambda>keys.
          and_then (getcol combined_shop ''lprice'') (\<lambda>prices.
          and_then (numeric_column prices) (\<lambda>xs.
          and_then (salience_loop blogs kws) (\<lambda>charts.
          and_then (getcol combined_shop ''mallName'') (\<lambda>malls.
            let top_malls = map fst (head 10 (value_counts malls));
                mall_subset = select_rows combined_shop (map (\<lambda>m. m \<in> set top_malls) malls)
            in Inr (d, [Histogram combined_shop, AvgPrice (groupby_mean keys xs)]
                          @ charts @ [BoxPlot mall_subset])))))))
       else Inr (d, [])) = Inr (data, outs)"
    unfolding tab_viz_def and_then_eq_Inr by blast
  show "all_shop_data shops = Inr data"
  proof (cases "d = []")
    case True
    with r d show ?thesis by simp
  next
    case False
    with r d show ?thesis by (auto simp: and_then_eq_Inr Let_def)
  qed
  show "charted outs =
      (if data = [] then [] else filter (\<lambda>kw. \<not> df_empty (get_df blogs kw)) kws)"
  proof (cases "d = []")
    case True
    with r show ?thesis by simp
  next
    case False
    with r obtain charts where "salience_loop blogs kws = Inr charts"
      and "\<exists>h a b. outs = [Histogram h, AvgPrice a] @ charts @ [BoxPlot b]" and "data = d"
      by (auto simp: and_then_eq_Inr Let_def)
    with False salience_loop_charted [of blogs kws charts] show ?thesis by auto
  qed
qed

text \<open>
  Claim C8, as the code has it. The loop that extracts the salient terms of the blog
  results stands inside the branch \<^verbatim>\<open>if all_shop_data:\<close> of tab 3. When tab 3 completes,
  it has rendered one salience chart for each keyword of the list whose blog frame is not
  empty, in the order of the list, provided at least one keyword has a non-empty shop
  frame; when every shop frame is empty it has rendered none, whatever the blog frames
  hold.
\<close>

theorem salience_gated_by_shop_data:
  assumes "tab_viz kws blogs shops = Inr (data, outs)"
  shows "charted outs =
    (if \<forall>kd \<in> set shops. df_empty (snd kd) then []
     else filter (\<lambda>kw. \<not> df_empty (get_df blogs kw)) kws)"
  using tab_viz_charted [OF assms] all_shop_data_Nil_iff [of shops data] by simp


lemma salience_returns:
  "concat (map analyze documents) \<noteq> [] \<Longrightarrow> \<exists>words. salience documents = Inr words"
  by (simp add: salience_def Let_def)

lemma corpus_blog_frame: "corpus blog_frame = Inr [''Omega review fish oil review'']"
  by (simp add: corpus_def blog_frame_def getcol_def fillna_def)

lemma analyze_blog_document:
  "analyze ''Omega review fish oil review'' = [''omega'', ''review'', ''fish'', ''oil'', ''review'']"
  by (simp add: analyze_def lower_def lower_char_def word_char_def char_of_def bit_Suc_0_iff)

lemma to_numeric_12000: "to_numeric_cell (Str ''12000'') = Num 12000"
  by (simp add: is_digit_def decimal_def)

lemma to_numeric_not_available: "to_numeric_cell (Str ''N/A'') = NA"
  by (simp add: is_digit_def)

lemma replicate_two: "replicate 2 x = [x, x]"
  by (simp add: numeral_2_eq_2)

lemma coerce_shop_frame: "coerce_lprice shop_frame = Inr coerced_frame"
  by (simp add: shop_frame_def coerced_frame_def coerce_lprice_def setcol_def getcol_def
      to_numeric_def to_numeric_12000 to_numeric_not_available del: to_numeric_cell.simps)

lemma all_shop_data_shop_frame:
  "all_shop_data [(''omega3'', shop_frame)] = Inr [tagged_frame]"
  by (simp add: shop_frame_def tagged_frame_def df_empty_def coerce_lprice_def setcol_scalar_def
      setcol_def getcol_def replicate_two to_numeric_def to_numeric_12000 to_numeric_not_available
      del: to_numeric_cell.simps)

lemma blog_frame_not_empty: "\<not> df_empty blog_frame"
  by (simp add: df_empty_def blog_frame_def)

lemma shop_frame_not_empty: "\<not> df_empty shop_frame"
  by (simp add: df_empty_def shop_frame_def)

lemma pd_concat_tagged: "pd_concat [tagged_frame] = tagged_frame"
  by (simp add: pd_concat_def tagged_frame_def columns_def)

lemma tab_viz_example:
  "\<exists>outs. tab_viz [''omega3''] [(''omega3'', blog_frame)] [(''omega3'', shop_frame)] =
     Inr ([tagged_frame], outs)"
proof -
  from salience_returns [of "[''Omega review fish oil review'']"]
  obtain words where w: "salience [''Omega review fish oil review''] = Inr words"
    by (auto simp: analyze_blog_document)
  have sl: "salience_loop [(''omega3'', blog_frame)] [''omega3''] = Inr [SalienceChart ''omega3'' words]"
    by (simp add: get_df_def blog_frame_not_empty corpus_blog_frame w)
  have g: "getcol tagged_frame ''keyword'' = Inr [Str ''omega3'', Str ''omega3'']"
    "getcol tagged_frame ''lprice'' = Inr [Num 12000, NA]"
    "getcol tagged_frame ''mallName'' = Inr [Str ''mall A'', Str ''mall A'']"
    by (simp_all add: getcol_def tagged_frame_def)
  show ?thesis
    by (simp add: tab_viz_def all_shop_data_shop_frame pd_concat_tagged Let_def sl g
        numeric_column_def del: salience_loop.simps all_shop_data.simps)
qed

theorem salience_gated_by_shop_data_witness:
  "\<exists>outs. tab_viz [''omega3''] [(''omega3'', blog_frame)] [(''omega3'', shop_frame)] =
      Inr ([tagged_frame], outs)
    \<and> \<not> df_empty shop_frame \<and> \<not> df_empty blog_frame
    \<and> charted outs = [''omega3'']"
proof -
  from tab_viz_example obtain outs where
    t: "tab_viz [''omega3''] [(''omega3'', blog_frame)] [(''omega3'', shop_frame)] =
          Inr ([tagged_frame], outs)" ..
  from salience_gated_by_shop_data [OF t]
  have "charted outs = [''omega3'']"
    by (simp add: shop_frame_not_empty blog_frame_not_empty get_df_def)
  with t shop_frame_not_empty blog_frame_not_empty show ?thesis by blast
qed

lemma run_steps:
  assumes "collect net (parse_keywords keyword_input) = Inr c"
    and "tab_trend (trend_df c) = Inr o1"
    and "tab_eda (parse_keywords keyword_input) (shop_dfs c) = Inr (s2, o2)"
    and "tab_viz (parse_keywords keyword_input) (blog_dfs c) s2 = Inr (d3, o3)"
    and "tab_raw (parse_keywords keyword_input) (blog_dfs c) s2 d3 = Inr o4"
  shows "run net keyword_input = Inr (o1 @ o2 @ o3 @ o4)"
  using assms by (simp add: run_def)

lemma run_no_shop_net:
  "run no_shop_net ''omega3'' =
       Inr [LineChart trend_frame,
            PivotTable \<lparr>row_labels = [Str ''2024-01-01'', Str ''2024-02-01''],
                        col_labels = [Str ''omega3'', Str ''vitaminD''],
                        table = [[Num 10, Num 100], [Num 25, Num 7]]\<rparr>,
            TrendStats trend_frame,
            RawShop ''omega3'' empty_frame, RawBlog ''omega3'' blog_frame]"
proof -
  let ?c = "\<lparr>trend_df = trend_frame, blog_dfs = [(''omega3'', blog_frame)],
            shop_dfs = [(''omega3'', empty_frame)]\<rparr>"
  have e: "\<forall>kd \<in> set [(''omega3'', empty_frame)]. df_empty (snd kd)"
    by (simp add: df_empty_def empty_frame_def)
  have c: "collect no_shop_net (parse_keywords ''omega3'') = Inr ?c"
    by (simp add: parse_one collect_no_shop_net)
  have t: "tab_trend (trend_df ?c) = Inr [LineChart trend_frame,
            PivotTable \<lparr>row_labels = [Str ''2024-01-01'', Str ''2024-02-01''],
                        col_labels = [Str ''omega3'', Str ''vitaminD''],
                        table = [[Num 10, Num 100], [Num 25, Num 7]]\<rparr>,
            TrendStats trend_frame]"
    by (simp add: tab_trend_trend_frame)
  have d: "tab_eda (parse_keywords ''omega3'') (shop_dfs ?c) = Inr ([(''omega3'', empty_frame)], [])"
    using tab_eda_all_empty [OF e, of "[''omega3'']"] by (simp add: parse_one del: tab_eda.simps)
  have v: "tab_viz (parse_keywords ''omega3'') (blog_dfs ?c) [(''omega3'', empty_frame)] = Inr ([], [])"
    using tab_viz_all_empty [OF e, of "[''omega3'']" "[(''omega3'', blog_frame)]"]
    by (simp add: parse_one)
  have r: "tab_raw (parse_keywords ''omega3'') (blog_dfs ?c) [(''omega3'', empty_frame)] [] =
      Inr [RawShop ''omega3'' empty_frame, RawBlog ''omega3'' blog_frame]"
    by (simp add: parse_one tab_raw_no_data)
  from run_steps [OF c t d v r] show ?thesis by simp
qed

text \<open>
  The claim as stated fails: the blog search for \<open>omega3\<close> returns one item and the shop
  search fails with status 500. The blog frame is not empty, yet tab 3 renders nothing
  and the run shows no salience chart.
\<close>

theorem salience_skipped_without_shop_data:
  "\<not> df_empty blog_frame
   \<and> get_df [(''omega3'', blog_frame)] ''omega3'' = blog_frame
   \<and> tab_viz [''omega3''] [(''omega3'', blog_frame)] [(''omega3'', empty_frame)] = Inr ([], [])
   \<and> collect no_shop_net (parse_keywords ''omega3'') =
       Inr \<lparr>trend_df = trend_frame, blog_dfs = [(''omega3'', blog_frame)],
            shop_dfs = [(''omega3'', empty_frame)]\<rparr>
   \<and> run no_shop_net ''omega3'' =
       Inr [LineChart trend_frame,
            PivotTable \<lparr>row_labels = [Str ''2024-01-01'', Str ''2024-02-01''],
                        col_labels = [Str ''omega3'', Str ''vitaminD''],
                        table = [[Num 10, Num 100], [Num 25, Num 7]]\<rparr>,
            TrendStats trend_frame,
            RawShop ''omega3'' empty_frame, RawBlog ''omega3'' blog_frame]
   \<and> charted [LineChart trend_frame,
            PivotTable \<lparr>row_labels = [Str ''2024-01-01'', Str ''2024-02-01''],
                        col_labels = [Str ''omega3'', Str ''vitaminD''],
                        table = [[Num 10, Num 100], [Num 25, Num 7]]\<rparr>,
            TrendStats trend_frame,
            RawShop ''omega3'' empty_frame, RawBlog ''omega3'' blog_frame] = []"
proof -
  have e: "\<forall>kd \<in> set [(''omega3'', empty_frame)]. df_empty (snd kd)"
    by (simp add: df_empty_def empty_frame_def)
  show ?thesis
    by (simp add: blog_frame_not_empty get_df_def tab_viz_all_empty [OF e] parse_one
        collect_no_shop_net run_no_shop_net)
qed

section \<open>Properties of the price coercion\<close>

lemma numbers_dropna [simp]: "numbers (filter (\<lambda>c. c \<noteq> NA) vs) = numbers vs"
  by (induction vs rule: numbers.induct) simp_all





lemma map_of_dict_set [simp]: "map_of (dict_set d k v) = (map_of d)(k \<mapsto> v)"
  by (induction d k v rule: dict_set.induct) (auto simp: fun_eq_iff)




















section \<open>The stored shop frames after tab 2\<close>

lemma collect_shop_only_net:
  "collect shop_only_net [''omega3''] =
     Inr \<lparr>trend_df = empty_frame, blog_dfs = [(''omega3'', empty_frame)],
          shop_dfs = [(''omega3'', shop_frame)]\<rparr>"
  by (simp add: collect_def fetch_shopping_trend_def fetch_search_results_def shop_only_net_def
      shop_body_frame search_failed_status)

lemma tab_eda_shop_frame:
  "tab_eda [''omega3''] [(''omega3'', shop_frame)] =
     Inr ([(''omega3'', coerced_frame)],
          [PriceStats ''omega3'' (describe [Num 12000, NA]),
           TopMalls ''omega3'' (head 10 (value_counts [Str ''mall A'', Str ''mall A'']))])"
proof -
  have "getcol coerced_frame ''lprice'' = Inr [Num 12000, NA]"
    and "getcol coerced_frame ''mallName'' = Inr [Str ''mall A'', Str ''mall A'']"
    by (simp_all add: getcol_def coerced_frame_def)
  then show ?thesis
    by (simp add: get_df_def shop_frame_not_empty coerce_shop_frame numeric_column_def)
qed

lemma all_shop_data_coerced:
  "all_shop_data [(''omega3'', coerced_frame)] = Inr [tagged_frame]"
  by (simp add: coerced_frame_def tagged_frame_def df_empty_def coerce_lprice_def
      setcol_scalar_def setcol_def getcol_def replicate_two to_numeric_def)

lemma tab_viz_coerced:
  "\<exists>a b. tab_viz [''omega3''] [(''omega3'', empty_frame)] [(''omega3'', coerced_frame)] =
     Inr ([tagged_frame], [Histogram tagged_frame, AvgPrice a, BoxPlot b])"
proof -
  have sl: "salience_loop [(''omega3'', empty_frame)] [''omega3''] = Inr []"
    by (simp add: get_df_def df_empty_def empty_frame_def)
  have g: "getcol tagged_frame ''keyword'' = Inr [Str ''omega3'', Str ''omega3'']"
    "getcol tagged_frame ''lprice'' = Inr [Num 12000, NA]"
    "getcol tagged_frame ''mallName'' = Inr [Str ''mall A'', Str ''mall A'']"
    by (simp_all add: getcol_def tagged_frame_def)
  show ?thesis
    by (simp add: tab_viz_def all_shop_data_coerced pd_concat_tagged Let_def sl g
        numeric_column_def del: salience_loop.simps all_shop_data.simps)
qed

lemma price_bins_tagged: "\<exists>summary. price_bins tagged_frame = Inr summary"
proof -
  have g: "getcol tagged_frame ''keyword'' = Inr [Str ''omega3'', Str ''omega3'']"
    "getcol tagged_frame ''lprice'' = Inr [Num 12000, NA]"
    by (simp_all add: getcol_def tagged_frame_def)
  then show ?thesis by (simp add: price_bins_def numeric_column_def)
qed

lemma tab_raw_tagged:
  "\<exists>summary. tab_raw [''omega3''] [(''omega3'', empty_frame)] [(''omega3'', coerced_frame)]
       [tagged_frame] =
     Inr [PriceSummary summary, RawShop ''omega3'' coerced_frame, RawBlog ''omega3'' empty_frame]"
proof -
  from price_bins_tagged obtain summary where "price_bins tagged_frame = Inr summary" ..
  then show ?thesis by (simp add: tab_raw_def pd_concat_tagged)
qed

text \<open>
  Claim C10 does not hold of the code. The shop search for \<open>omega3\<close> returns two items with
  the prices \<open>12000\<close> and \<open>N/A\<close>. Line 138 of tab 2 assigns the coerced column to the frame
  stored in \<^verbatim>\<open>shop_dfs\<close> (line 154 of tab 3 coerces a copy instead), so the raw-data tab
  shows the prices 12000.0 and NaN: the frame it displays is not the frame that
  \<^verbatim>\<open>fetch_search_results\<close> returned.
\<close>

theorem raw_tab_shows_coerced_prices:
  "parse_keywords ''omega3'' = [''omega3'']
   \<and> fetch_search_results shop_only_net 2 ''shop'' ''omega3'' = Inr shop_frame
   \<and> getcol shop_frame ''lprice'' = Inr [Str ''12000'', Str ''N/A'']
   \<and> (\<exists>a b summary. run shop_only_net ''omega3'' =
         Inr [TrendWarning,
              PriceStats ''omega3'' (describe [Num 12000, NA]),
              TopMalls ''omega3'' (head 10 (value_counts [Str ''mall A'', Str ''mall A''])),
              Histogram tagged_frame, AvgPrice a, BoxPlot b,
              PriceSummary summary,
              RawShop ''omega3'' coerced_frame, RawBlog ''omega3'' empty_frame])
   \<and> getcol coerced_frame ''lprice'' = Inr [Num 12000, NA]
   \<and> coerced_frame \<noteq> shop_frame"
proof -
  let ?c = "\<lparr>trend_df = empty_frame, blog_dfs = [(''omega3'', empty_frame)],
          shop_dfs = [(''omega3'', shop_frame)]\<rparr>"
  have ne: "coerced_frame \<noteq> shop_frame"
    by (simp add: coerced_frame_def shop_frame_def)
  have f: "fetch_search_results shop_only_net 2 ''shop'' ''omega3'' = Inr shop_frame"
    by (simp add: fetch_search_results_def shop_only_net_def shop_body_frame)
  have g: "getcol shop_frame ''lprice'' = Inr [Str ''12000'', Str ''N/A'']"
    "getcol coerced_frame ''lprice'' = Inr [Num 12000, NA]"
    by (simp_all add: getcol_def shop_frame_def coerced_frame_def)
  have c: "collect shop_only_net (parse_keywords ''omega3'') = Inr ?c"
    by (simp add: parse_one collect_shop_only_net)
  have t: "tab_trend (trend_df ?c) = Inr [TrendWarning]"
    by (simp add: tab_trend_def df_empty_def empty_frame_def)
  have e: "tab_eda (parse_keywords ''omega3'') (shop_dfs ?c) =
     Inr ([(''omega3'', coerced_frame)],
          [PriceStats ''omega3'' (describe [Num 12000, NA]),
           TopMalls ''omega3'' (head 10 (value_counts [Str ''mall A'', Str ''mall A'']))])"
    using tab_eda_shop_frame by (simp add: parse_one del: tab_eda.simps)
  from tab_viz_coerced obtain a b where
    v: "tab_viz (parse_keywords ''omega3'') (blog_dfs ?c) [(''omega3'', coerced_frame)] =
          Inr ([tagged_frame], [Histogram tagged_frame, AvgPrice a, BoxPlot b])"
    by (auto simp: parse_one)
  from tab_raw_tagged obtain summary where
    r: "tab_raw (parse_keywords ''omega3'') (blog_dfs ?c) [(''omega3'', coerced_frame)]
          [tagged_frame] =
        Inr [PriceSummary summary, RawShop ''omega3'' coerced_frame, RawBlog ''omega3'' empty_frame]"
    by (auto simp: parse_one)
  from run_steps [OF c t e v r]
  have "\<exists>a b summary. run shop_only_net ''omega3'' =
         Inr [TrendWarning,
              PriceStats ''omega3'' (describe [Num 12000, NA]),
              TopMalls ''omega3'' (head 10 (value_counts [Str ''mall A'', Str ''mall A''])),
              Histogram tagged_frame, AvgPrice a, BoxPlot b,
              PriceSummary summary,
              RawShop ''omega3'' coerced_frame, RawBlog ''omega3'' empty_frame]"
    by simp
  with ne f g parse_one show ?thesis by blast
qed

section \<open>Properties of the pivoted trend table\<close>

lemma position_Some:
  "position xs x = Some i \<Longrightarrow> i < length xs \<and> xs ! i = x"
  by (induction xs arbitrary: i) (auto split: if_splits)

lemma position_None: "position xs x = None \<longleftrightarrow> x \<notin> set xs"
  by (induction xs) auto

lemma strings_of_Some: "strings_of ls = Some ss \<Longrightarrow> ls = map Str ss"
  by (induction ls arbitrary: ss rule: strings_of.induct) (auto split: option.splits)

lemma reals_of_Some: "reals_of ls = Some xs \<Longrightarrow> ls = map Num xs"
  by (induction ls arbitrary: xs rule: reals_of.induct) (auto split: option.splits)

lemma sort_labels_set: "sort_labels ls = Inr rl \<Longrightarrow> set rl = set ls"
  by (auto simp: sort_labels_def split: option.splits dest!: strings_of_Some reals_of_Some)

lemma pivot_loc:
  assumes pv: "pivot df idx col val = Inr t"
    and ps: "getcol df idx = Inr ps" and ks: "getcol df col = Inr ks"
    and vs: "getcol df val = Inr vs"
  shows "distinct (zip ps ks)"
    and "set (row_labels t) = set ps"
    and "set (col_labels t) = set ks"
    and "loc t p k =
      (if p \<in> set ps \<and> k \<in> set ks
       then Some (case map_of (zip (zip ps ks) vs) (p, k) of None \<Rightarrow> NA | Some v \<Rightarrow> v)
       else None)"
proof -
  from pv ps ks vs obtain rl cl where rl: "sort_labels (unique ps) = Inr rl"
    and cl: "sort_labels (unique ks) = Inr cl"
    and d: "distinct (zip ps ks)"
    and t: "t = \<lparr>row_labels = rl, col_labels = cl,
                 table = map (\<lambda>p. map (\<lambda>k. case map_of (zip (zip ps ks) vs) (p, k) of
                                                None \<Rightarrow> NA | Some v \<Rightarrow> v) cl) rl\<rparr>"
    by (auto simp: pivot_def and_then_eq_Inr split: if_splits)
  show "distinct (zip ps ks)" by (rule d)
  from sort_labels_set [OF rl] t show r: "set (row_labels t) = set ps" by simp
  from sort_labels_set [OF cl] t show c: "set (col_labels t) = set ks" by simp
  show "loc t p k =
      (if p \<in> set ps \<and> k \<in> set ks
       then Some (case map_of (zip (zip ps ks) vs) (p, k) of None \<Rightarrow> NA | Some v \<Rightarrow> v)
       else None)"
  proof (cases "position rl p")
    case None
    then have "p \<notin> set ps" using r t by (simp add: position_None)
    with None t show ?thesis by (simp add: loc_def)
  next
    case (Some i)
    note pi = Some and i = position_Some [OF Some]
    from i r t have pin: "p \<in> set ps" by (metis nth_mem pivot_table.select_convs(1))
    show ?thesis
    proof (cases "position cl k")
      case None
      then have "k \<notin> set ks" using c t by (simp add: position_None)
      with None pi t show ?thesis by (simp add: loc_def)
    next
      case (Some j)
      note j = position_Some [OF Some]
      from j c t have "k \<in> set ks" by (metis nth_mem pivot_table.select_convs(2))
      with pin i j pi Some t show ?thesis by (simp add: loc_def)
    qed
  qed
qed


lemma cells_of_as_cell:
  "cells_of vs = Inr cs \<Longrightarrow> cs = map as_cell vs \<and> (\<forall>v \<in> set vs. cell_of v \<noteq> None)"
  by (induction vs arbitrary: cs) (auto simp: and_then_eq_Inr as_cell_def split: option.splits)

lemma as_cell_inj:
  "cell_of u \<noteq> None \<Longrightarrow> cell_of v \<noteq> None \<Longrightarrow> as_cell u = as_cell v \<Longrightarrow> u = v"
  by (cases u; cases v) (simp_all add: as_cell_def)

lemma unique_three:
  assumes "a \<noteq> b" "a \<noteq> c" "b \<noteq> c" and "set xs \<subseteq> {a, b, c}"
  shows "unique (a # b # c # xs) = [a, b, c]"
proof -
  have "filter (\<lambda>y. y \<noteq> c) (filter (\<lambda>y. y \<noteq> b) (filter (\<lambda>y. y \<noteq> a) xs)) = []"
    using assms(4) by (auto simp: filter_empty_conv)
  with assms(1-3) show ?thesis by simp
qed

lemma trend_columns:
  "rs \<noteq> [] \<Longrightarrow>
     unique (concat (map (map fst) (map point_dict rs))) = [''period'', ''ratio'', ''keyword'']"
proof (cases rs)
  case Nil
  then show "rs \<noteq> [] \<Longrightarrow> ?thesis" by simp
next
  case (Cons r rest)
  have "set (concat (map (map fst) (map point_dict rest))) \<subseteq> {''period'', ''ratio'', ''keyword''}"
    by (auto simp: point_dict_def)
  from unique_three [OF _ _ _ this] Cons show ?thesis
    by (simp add: point_dict_def)
qed

lemma trend_frame_cols:
  assumes "DataFrame_records (map point_dict rs) = Inr df" and "rs \<noteq> []"
  shows "getcol df ''period'' = Inr (map (\<lambda>r. as_cell (period r)) rs)"
    and "getcol df ''ratio'' = Inr (map (\<lambda>r. as_cell (ratio r)) rs)"
    and "getcol df ''keyword'' = Inr (map (\<lambda>r. as_cell (keyword r)) rs)"
    and "\<forall>r \<in> set rs. cell_of (period r) \<noteq> None \<and> cell_of (keyword r) \<noteq> None"
proof -
  from assms(1) have "and_then (build_cols (unique (concat (map (map fst) (map point_dict rs))))
      (map point_dict rs)) (\<lambda>cs. Inr \<lparr>nrows = length (map point_dict rs), cols = cs\<rparr>) = Inr df"
    unfolding DataFrame_records_def .
  then obtain cs where cs: "build_cols [''period'', ''ratio'', ''keyword''] (map point_dict rs) = Inr cs"
    and df0: "df = \<lparr>nrows = length rs, cols = cs\<rparr>"
    unfolding trend_columns [OF assms(2)] and_then_eq_Inr by auto
  have look: "map (\<lambda>d. case map_of d ''period'' of None \<Rightarrow> JNull | Some v \<Rightarrow> v) (map point_dict rs) = map period rs"
    "map (\<lambda>d. case map_of d ''ratio'' of None \<Rightarrow> JNull | Some v \<Rightarrow> v) (map point_dict rs) = map ratio rs"
    "map (\<lambda>d. case map_of d ''keyword'' of None \<Rightarrow> JNull | Some v \<Rightarrow> v) (map point_dict rs) = map keyword rs"
    by (simp_all add: point_dict_def)
  from cs have "and_then (cells_of (map period rs)) (\<lambda>vs.
      and_then (and_then (cells_of (map ratio rs)) (\<lambda>vs.
        and_then (and_then (cells_of (map keyword rs)) (\<lambda>vs.
          and_then (Inr []) (\<lambda>rest. Inr ((''keyword'', vs) # rest))))
          (\<lambda>rest. Inr ((''ratio'', vs) # rest))))
        (\<lambda>rest. Inr ((''period'', vs) # rest))) = Inr cs"
    by (simp only: build_cols.simps look)
  with df0 obtain ps vs ks where
    p: "cells_of (map period rs) = Inr ps" and v: "cells_of (map ratio rs) = Inr vs"
    and k: "cells_of (map keyword rs) = Inr ks"
    and df: "df = \<lparr>nrows = length rs, cols = [(''period'', ps), (''ratio'', vs), (''keyword'', ks)]\<rparr>"
    by (auto simp: and_then_eq_Inr)
  from cells_of_as_cell [OF p] cells_of_as_cell [OF v] cells_of_as_cell [OF k] df
  show "getcol df ''period'' = Inr (map (\<lambda>r. as_cell (period r)) rs)"
    and "getcol df ''ratio'' = Inr (map (\<lambda>r. as_cell (ratio r)) rs)"
    and "getcol df ''keyword'' = Inr (map (\<lambda>r. as_cell (keyword r)) rs)"
    and "\<forall>r \<in> set rs. cell_of (period r) \<noteq> None \<and> cell_of (keyword r) \<noteq> None"
    by (simp_all add: getcol_def comp_def)
qed


lemma distinct_map_finer:
  "distinct (map f xs) \<Longrightarrow> (\<And>x y. x \<in> set xs \<Longrightarrow> y \<in> set xs \<Longrightarrow> h x = h y \<Longrightarrow> f x = f y) \<Longrightarrow>
     distinct (map h xs)"
  by (induction xs) (auto simp: image_iff)

lemma zip_map_same: "zip (map f xs) (map g xs) = map (\<lambda>x. (f x, g x)) xs"
  by (induction xs) simp_all

lemma pivot_table_cells:
  assumes df: "DataFrame_records (map point_dict results) = Inr df"
    and ne: "results \<noteq> []"
    and pv: "pivot df ''period'' ''keyword'' ''ratio'' = Inr t"
  shows "distinct (map (\<lambda>r. (period r, keyword r)) results)
    \<and> set (row_labels t) = (\<lambda>r. as_cell (period r)) ` set results
    \<and> set (col_labels t) = (\<lambda>r. as_cell (keyword r)) ` set results
    \<and> (\<forall>r \<in> set results.
          loc t (as_cell (period r)) (as_cell (keyword r)) = Some (as_cell (ratio r)))
    \<and> (\<forall>p \<in> set (row_labels t). \<forall>k \<in> set (col_labels t).
          (\<forall>r \<in> set results. (as_cell (period r), as_cell (keyword r)) \<noteq> (p, k)) \<longrightarrow>
          loc t p k = Some NA)"
proof -
  let ?ps = "map (\<lambda>r. as_cell (period r)) results"
  let ?ks = "map (\<lambda>r. as_cell (keyword r)) results"
  let ?vs = "map (\<lambda>r. as_cell (ratio r)) results"
  let ?pk = "map (\<lambda>r. (as_cell (period r), as_cell (keyword r))) results"
  note c = trend_frame_cols [OF df ne]
  note l = pivot_loc [OF pv c(1) c(3) c(2)]
  have z: "zip ?ps ?ks = ?pk" by (rule zip_map_same)
  from l(1) have d: "distinct ?pk" by (simp only: z)
  have a1: "distinct (map (\<lambda>r. (period r, keyword r)) results)"
  proof (rule distinct_map_finer [OF d])
    fix x y assume "x \<in> set results" "y \<in> set results"
      and "(period x, keyword x) = (period y, keyword y)"
    then show "(as_cell (period x), as_cell (keyword x)) = (as_cell (period y), as_cell (keyword y))"
      by simp
  qed
  have a2: "set (row_labels t) = (\<lambda>r. as_cell (period r)) ` set results"
    using l(2) by simp
  have a3: "set (col_labels t) = (\<lambda>r. as_cell (keyword r)) ` set results"
    using l(3) by simp
  have a4: "loc t (as_cell (period r)) (as_cell (keyword r)) = Some (as_cell (ratio r))"
    if r: "r \<in> set results" for r
  proof -
    from r obtain i where i: "i < length results" "results ! i = r"
      by (auto simp: in_set_conv_nth)
    have "map_of (zip ?pk ?vs) (?pk ! i) = Some (?vs ! i)"
      using d i(1) by (intro map_of_zip_nth) simp_all
    with i have "map_of (zip ?pk ?vs) (as_cell (period r), as_cell (keyword r)) = Some (as_cell (ratio r))"
      by simp
    with r show ?thesis by (simp add: l(4) z)
  qed
  have a5: "loc t p k = Some NA"
    if p: "p \<in> set (row_labels t)" and k: "k \<in> set (col_labels t)"
      and n: "\<forall>r \<in> set results. (as_cell (period r), as_cell (keyword r)) \<noteq> (p, k)" for p k
  proof -
    from n have "(p, k) \<notin> set ?pk" by auto
    then have "map_of (zip ?pk ?vs) (p, k) = None" by simp
    then have "(case map_of (zip ?pk ?vs) (p, k) of None \<Rightarrow> NA | Some v \<Rightarrow> v) = NA"
      by (simp only: option.case)
    with p k l(2) l(3) show ?thesis by (simp add: l(4) z del: map_of_zip_is_None)
  qed
  from a1 a2 a3 a4 a5 show ?thesis by blast
qed


lemma cells_of_total:
  "\<forall>r \<in> set rs. cell_of (f r) \<noteq> None \<Longrightarrow> cells_of (map f rs) = Inr (map (\<lambda>r. as_cell (f r)) rs)"
  by (induction rs) (auto simp: as_cell_def)

lemma trend_records_frame:
  assumes "\<forall>r \<in> set rs. cell_of (period r) \<noteq> None \<and> cell_of (ratio r) \<noteq> None
      \<and> cell_of (keyword r) \<noteq> None"
    and "rs \<noteq> []"
  shows "DataFrame_records (map point_dict rs) =
    Inr \<lparr>nrows = length rs,
         cols = [(''period'', map (\<lambda>r. as_cell (period r)) rs),
                 (''ratio'', map (\<lambda>r. as_cell (ratio r)) rs),
                 (''keyword'', map (\<lambda>r. as_cell (keyword r)) rs)]\<rparr>"
proof -
  have look: "map (\<lambda>d. case map_of d ''period'' of None \<Rightarrow> JNull | Some v \<Rightarrow> v) (map point_dict rs) = map period rs"
    "map (\<lambda>d. case map_of d ''ratio'' of None \<Rightarrow> JNull | Some v \<Rightarrow> v) (map point_dict rs) = map ratio rs"
    "map (\<lambda>d. case map_of d ''keyword'' of None \<Rightarrow> JNull | Some v \<Rightarrow> v) (map point_dict rs) = map keyword rs"
    by (simp_all add: point_dict_def)
  from assms(1) have c: "cells_of (map period rs) = Inr (map (\<lambda>r. as_cell (period r)) rs)"
    "cells_of (map ratio rs) = Inr (map (\<lambda>r. as_cell (ratio r)) rs)"
    "cells_of (map keyword rs) = Inr (map (\<lambda>r. as_cell (keyword r)) rs)"
    by (simp_all add: cells_of_total)
  show ?thesis
    unfolding DataFrame_records_def trend_columns [OF assms(2)]
    by (simp only: build_cols.simps look c and_then_Inr length_map)
qed

lemma strings_of_total:
  "\<forall>c \<in> set ls. \<exists>s. c = Str s \<Longrightarrow> \<exists>ss. strings_of ls = Some ss"
  by (induction ls) auto

lemma sort_labels_total:
  "\<forall>c \<in> set ls. \<exists>s. c = Str s \<Longrightarrow> \<exists>rl. sort_labels ls = Inr rl"
  using strings_of_total [of ls] by (auto simp: sort_labels_def)

lemma pivot_total:
  assumes "getcol df idx = Inr ps" and "getcol df col = Inr ks" and "getcol df val = Inr vs"
    and "\<forall>c \<in> set ps. \<exists>s. c = Str s" and "\<forall>c \<in> set ks. \<exists>s. c = Str s"
  shows "distinct (zip ps ks) \<Longrightarrow> \<exists>t. pivot df idx col val = Inr t"
    and "\<not> distinct (zip ps ks) \<Longrightarrow> pivot df idx col val = Inl ValueError"
proof -
  from assms(4) obtain rl where rl: "sort_labels (unique ps) = Inr rl"
    using sort_labels_total [of "unique ps"] by auto
  from assms(5) obtain cl where cl: "sort_labels (unique ks) = Inr cl"
    using sort_labels_total [of "unique ks"] by auto
  show "distinct (zip ps ks) \<Longrightarrow> \<exists>t. pivot df idx col val = Inr t"
    by (simp add: pivot_def assms(1-3) rl cl)
  show "\<not> distinct (zip ps ks) \<Longrightarrow> pivot df idx col val = Inl ValueError"
    by (simp add: pivot_def assms(1-3) rl cl)
qed

text \<open>
  Claim C3, as the code has it. Take normalized trend records whose period and keyword
  are strings, as the data model has them, and whose ratio is a number, a string or
  null. The frame of the records exists, and tab 1 treats it as follows.

  \<^item> When no (period, keyword) pair occurs in two records,
    \<^verbatim>\<open>df.pivot(index="period", columns="keyword", values="ratio")\<close> returns a table
    and tab 1 shows it (with no record at all the frame is empty, and tab 1 shows its
    warning and no table). The rows of the table are the periods of the records and its
    columns their keywords; the cell of the pair of each record holds the ratio of that
    record; the cell of every combination of a period and a keyword that no record has
    is missing, and no cell is filled with zero.

  \<^item> When a pair occurs in two records the call raises \<open>ValueError\<close>, and so does tab 1:
    there is no table.
\<close>

theorem pivot_keeps_present_pairs:
  assumes typed: "\<forall>r \<in> set results.
      (\<exists>p. period r = JStr p) \<and> (\<exists>k. keyword r = JStr k) \<and> cell_of (ratio r) \<noteq> None"
  shows "\<exists>df. DataFrame_records (map point_dict results) = Inr df \<and>
    (if distinct (map (\<lambda>r. (period r, keyword r)) results) then
       (if results = [] then tab_trend df = Inr [TrendWarning]
        else (\<exists>t. pivot df ''period'' ''keyword'' ''ratio'' = Inr t
          \<and> tab_trend df = Inr [LineChart df, PivotTable t, TrendStats df]
          \<and> set (row_labels t) = (\<lambda>r. as_cell (period r)) ` set results
          \<and> set (col_labels t) = (\<lambda>r. as_cell (keyword r)) ` set results
          \<and> (\<forall>r \<in> set results.
                loc t (as_cell (period r)) (as_cell (keyword r)) = Some (as_cell (ratio r)))
          \<and> (\<forall>p k. (\<forall>r \<in> set results. (period r, keyword r) \<noteq> (JStr p, JStr k)) \<longrightarrow>
                loc t (Str p) (Str k) =
                  (if Str p \<in> set (row_labels t) \<and> Str k \<in> set (col_labels t)
                   then Some NA else None))))
     else pivot df ''period'' ''keyword'' ''ratio'' = Inl ValueError
          \<and> tab_trend df = Inl ValueError)"
proof (cases "results = []")
  case True
  then show ?thesis
    by (simp add: DataFrame_records_def tab_trend_def df_empty_def)
next
  case False
  let ?ps = "map (\<lambda>r. as_cell (period r)) results"
  let ?vs = "map (\<lambda>r. as_cell (ratio r)) results"
  let ?ks = "map (\<lambda>r. as_cell (keyword r)) results"
  let ?df = "\<lparr>nrows = length results,
         cols = [(''period'', ?ps), (''ratio'', ?vs), (''keyword'', ?ks)]\<rparr>"
  from typed have defined: "\<forall>r \<in> set results. cell_of (period r) \<noteq> None
      \<and> cell_of (ratio r) \<noteq> None \<and> cell_of (keyword r) \<noteq> None"
    by fastforce
  from typed have strs: "\<forall>c \<in> set ?ps. \<exists>s. c = Str s" "\<forall>c \<in> set ?ks. \<exists>s. c = Str s"
    by (fastforce simp: as_cell_def)+
  note df = trend_records_frame [OF defined False]
  have g: "getcol ?df ''period'' = Inr ?ps" "getcol ?df ''keyword'' = Inr ?ks"
    "getcol ?df ''ratio'' = Inr ?vs"
    by (simp_all add: getcol_def)
  have ne: "\<not> df_empty ?df" using False by (simp add: df_empty_def)
  note tot = pivot_total [OF g strs]
  have z: "zip ?ps ?ks = map (\<lambda>r. (as_cell (period r), as_cell (keyword r))) results"
    by (rule zip_map_same)
  have dd: "distinct (zip ?ps ?ks) \<longleftrightarrow> distinct (map (\<lambda>r. (period r, keyword r)) results)"
  proof
    assume "distinct (zip ?ps ?ks)"
    then have "distinct (map (\<lambda>r. (as_cell (period r), as_cell (keyword r))) results)"
      by (simp only: z)
    then show "distinct (map (\<lambda>r. (period r, keyword r)) results)"
      by (rule distinct_map_finer) simp
  next
    assume "distinct (map (\<lambda>r. (period r, keyword r)) results)"
    then have "distinct (map (\<lambda>r. (as_cell (period r), as_cell (keyword r))) results)"
    proof (rule distinct_map_finer)
      fix x y assume x: "x \<in> set results" and y: "y \<in> set results"
        and e: "(as_cell (period x), as_cell (keyword x)) = (as_cell (period y), as_cell (keyword y))"
      from defined x y e have "period x = period y" by (intro as_cell_inj) simp_all
      moreover from defined x y e have "keyword x = keyword y" by (intro as_cell_inj) simp_all
      ultimately show "(period x, keyword x) = (period y, keyword y)" by simp
    qed
    then show "distinct (zip ?ps ?ks)" by (simp only: z)
  qed
  show ?thesis
  proof (cases "distinct (map (\<lambda>r. (period r, keyword r)) results)")
    case d: False
    with tot(2) dd have "pivot ?df ''period'' ''keyword'' ''ratio'' = Inl ValueError" by simp
    with df d ne show ?thesis by (simp add: tab_trend_def)
  next
    case d: True
    with tot(1) dd obtain t where t: "pivot ?df ''period'' ''keyword'' ''ratio'' = Inr t"
      by auto
    note c = pivot_table_cells [OF df False t]
    from c have rows: "set (row_labels t) = (\<lambda>r. as_cell (period r)) ` set results"
      and cls: "set (col_labels t) = (\<lambda>r. as_cell (keyword r)) ` set results"
      and present: "\<forall>r \<in> set results.
          loc t (as_cell (period r)) (as_cell (keyword r)) = Some (as_cell (ratio r))"
      by blast+
    have absent: "loc t (Str p) (Str k) =
        (if Str p \<in> set (row_labels t) \<and> Str k \<in> set (col_labels t) then Some NA else None)"
      if n: "\<forall>r \<in> set results. (period r, keyword r) \<noteq> (JStr p, JStr k)" for p k
    proof (cases "Str p \<in> set (row_labels t) \<and> Str k \<in> set (col_labels t)")
      case True
      have "\<forall>r \<in> set results. (as_cell (period r), as_cell (keyword r)) \<noteq> (Str p, Str k)"
      proof
        fix r assume r: "r \<in> set results"
        with typed obtain p' k' where r': "period r = JStr p'" "keyword r = JStr k'" by blast
        with n r have "\<not> (p' = p \<and> k' = k)" by auto
        with r' show "(as_cell (period r), as_cell (keyword r)) \<noteq> (Str p, Str k)"
          by (auto simp: as_cell_def)
      qed
      with c True have "loc t (Str p) (Str k) = Some NA" by blast
      with True show ?thesis by simp
    next
      case out: False
      then have "position (row_labels t) (Str p) = None \<or> position (col_labels t) (Str k) = None"
        by (simp add: position_None)
      then have "loc t (Str p) (Str k) = None"
        by (auto simp: loc_def split: option.splits)
      with out show ?thesis by simp
    qed
    from t ne have tt: "tab_trend ?df = Inr [LineChart ?df, PivotTable t, TrendStats ?df]"
      by (simp add: tab_trend_def)
    from df d False t tt rows cls present absent show ?thesis by auto
  qed
qed

lemma duplicate_body_frame:
  "trend_of_response \<lparr>status_code = 200, json = Some duplicate_body\<rparr> = Inr duplicate_frame"
  by (simp add: trend_of_response_def duplicate_body_def normalizer_def
      DataFrame_records_def point_dict_def duplicate_frame_def)

text \<open>
  The claim as stated fails for a record set with a repeated pair: the provider answers
  with two groups of the same title and period (the keyword list is not deduplicated, so
  a keyword entered twice is requested twice). The normalizer keeps both records, the
  frame is not empty, and the pivot raises \<open>ValueError\<close>: tab 1 shows no table.
\<close>

theorem pivot_raises_on_duplicate_pair:
  "normalizer duplicate_body =
     Inr [\<lparr>period = JStr ''2024-01-01'', ratio = JNum 10, keyword = JStr ''omega3''\<rparr>,
          \<lparr>period = JStr ''2024-01-01'', ratio = JNum 10, keyword = JStr ''omega3''\<rparr>]
   \<and> trend_of_response \<lparr>status_code = 200, json = Some duplicate_body\<rparr> = Inr duplicate_frame
   \<and> \<not> df_empty duplicate_frame
   \<and> pivot duplicate_frame ''period'' ''keyword'' ''ratio'' = Inl ValueError
   \<and> tab_trend duplicate_frame = Inl ValueError"
proof -
  have n: "normalizer duplicate_body =
     Inr [\<lparr>period = JStr ''2024-01-01'', ratio = JNum 10, keyword = JStr ''omega3''\<rparr>,
          \<lparr>period = JStr ''2024-01-01'', ratio = JNum 10, keyword = JStr ''omega3''\<rparr>]"
    by (simp add: duplicate_body_def normalizer_def)
  have e: "\<not> df_empty duplicate_frame" by (simp add: df_empty_def duplicate_frame_def)
  have p: "pivot duplicate_frame ''period'' ''keyword'' ''ratio'' = Inl ValueError"
    by (simp add: pivot_def duplicate_frame_def getcol_def sort_labels_def)
  from n e p duplicate_body_frame show ?thesis by (simp add: tab_trend_def)
qed


lemma sparse_points_frame: "DataFrame_records (map point_dict sparse_points) = Inr sparse_frame"
  by (simp add: sparse_points_def DataFrame_records_def point_dict_def sparse_frame_def)

lemma pivot_sparse_frame: "pivot sparse_frame ''period'' ''keyword'' ''ratio'' = Inr sparse_pivot"
  by (simp add: pivot_def sparse_frame_def getcol_def sort_labels_def sparse_pivot_def)

theorem pivot_keeps_present_pairs_witness:
  "DataFrame_records (map point_dict sparse_points) = Inr sparse_frame
   \<and> distinct (map (\<lambda>r. (period r, keyword r)) sparse_points)
   \<and> pivot sparse_frame ''period'' ''keyword'' ''ratio'' = Inr sparse_pivot
   \<and> tab_trend sparse_frame =
       Inr [LineChart sparse_frame, PivotTable sparse_pivot, TrendStats sparse_frame]
   \<and> set (row_labels sparse_pivot) = {Str ''2024-01-01'', Str ''2024-02-01''}
   \<and> set (col_labels sparse_pivot) = {Str ''omega3'', Str ''vitaminD''}
   \<and> loc sparse_pivot (Str ''2024-01-01'') (Str ''omega3'') = Some (Num 10)
   \<and> loc sparse_pivot (Str ''2024-02-01'') (Str ''omega3'') = Some (Num 25)
   \<and> loc sparse_pivot (Str ''2024-01-01'') (Str ''vitaminD'') = Some (Num 100)
   \<and> loc sparse_pivot (Str ''2024-02-01'') (Str ''vitaminD'') = Some NA
   \<and> loc sparse_pivot (Str ''2024-03-01'') (Str ''omega3'') = None"
proof -
  have typed: "\<forall>r \<in> set sparse_points.
      (\<exists>p. period r = JStr p) \<and> (\<exists>k. keyword r = JStr k) \<and> cell_of (ratio r) \<noteq> None"
    by (simp add: sparse_points_def)
  have d: "distinct (map (\<lambda>r. (period r, keyword r)) sparse_points)"
    by (simp add: sparse_points_def)
  have ne: "sparse_points \<noteq> []" by (simp add: sparse_points_def)
  from pivot_keeps_present_pairs [OF typed] d ne sparse_points_frame pivot_sparse_frame
  have th: "tab_trend sparse_frame =
        Inr [LineChart sparse_frame, PivotTable sparse_pivot, TrendStats sparse_frame]
    \<and> set (row_labels sparse_pivot) = (\<lambda>r. as_cell (period r)) ` set sparse_points
    \<and> set (col_labels sparse_pivot) = (\<lambda>r. as_cell (keyword r)) ` set sparse_points
    \<and> (\<forall>r \<in> set sparse_points.
          loc sparse_pivot (as_cell (period r)) (as_cell (keyword r)) = Some (as_cell (ratio r)))
    \<and> (\<forall>p k. (\<forall>r \<in> set sparse_points. (period r, keyword r) \<noteq> (JStr p, JStr k)) \<longrightarrow>
          loc sparse_pivot (Str p) (Str k) =
            (if Str p \<in> set (row_labels sparse_pivot) \<and> Str k \<in> set (col_labels sparse_pivot)
             then Some NA else None))"
    by auto
  from th have rows: "set (row_labels sparse_pivot) = {Str ''2024-01-01'', Str ''2024-02-01''}"
    and cls: "set (col_labels sparse_pivot) = {Str ''omega3'', Str ''vitaminD''}"
    by (auto simp: sparse_points_def as_cell_def)
  from th have pr: "\<forall>r \<in> set sparse_points.
          loc sparse_pivot (as_cell (period r)) (as_cell (keyword r)) = Some (as_cell (ratio r))"
    by blast
  then have p1: "loc sparse_pivot (Str ''2024-01-01'') (Str ''omega3'') = Some (Num 10)"
    and p2: "loc sparse_pivot (Str ''2024-02-01'') (Str ''omega3'') = Some (Num 25)"
    and p3: "loc sparse_pivot (Str ''2024-01-01'') (Str ''vitaminD'') = Some (Num 100)"
    by (simp_all add: sparse_points_def as_cell_def)
  from th have ab: "\<And>p k. (\<forall>r \<in> set sparse_points. (period r, keyword r) \<noteq> (JStr p, JStr k)) \<Longrightarrow>
          loc sparse_pivot (Str p) (Str k) =
            (if Str p \<in> set (row_labels sparse_pivot) \<and> Str k \<in> set (col_labels sparse_pivot)
             then Some NA else None)"
    by blast
  have a1: "loc sparse_pivot (Str ''2024-02-01'') (Str ''vitaminD'') = Some NA"
    using ab [of "''2024-02-01''" "''vitaminD''"] by (simp add: sparse_points_def rows cls)
  have a2: "loc sparse_pivot (Str ''2024-03-01'') (Str ''omega3'') = None"
    using ab [of "''2024-03-01''" "''omega3''"] by (simp add: sparse_points_def rows cls)
  from th sparse_points_frame d pivot_sparse_frame rows cls p1 p2 p3 a1 a2 show ?thesis by blast
qed

section \<open>Properties of the keyword-salience extractor\<close>

lemma add_scalar_text:
  "\<forall>c \<in> set cs. c = NA \<or> (\<exists>t. c = Str t) \<Longrightarrow>
     add_scalar (fillna [] cs) s = Inr (map (\<lambda>c. Str (text_of c @ s)) cs)"
proof (induction cs)
  case Nil
  show ?case by (simp add: fillna_def)
next
  case (Cons c cs)
  then have "add_scalar (fillna [] cs) s = Inr (map (\<lambda>c. Str (text_of c @ s)) cs)" by simp
  moreover from Cons.prems have "c = NA \<or> (\<exists>t. c = Str t)" by simp
  ultimately show ?case by (cases c) (simp_all add: fillna_def)
qed

lemma add_series_text:
  "length ds = length ls \<Longrightarrow> \<forall>c \<in> set ds. c = NA \<or> (\<exists>t. c = Str t) \<Longrightarrow>
     add_series (map Str ls) (fillna [] ds) = Inr (map2 (\<lambda>l d. l @ text_of d) ls ds)"
proof (induction ls arbitrary: ds)
  case Nil
  then show ?case by (simp add: fillna_def)
next
  case (Cons l ls)
  then obtain d ds' where ds: "ds = d # ds'" by (cases ds) auto
  with Cons.prems have "length ds' = length ls" and "\<forall>c \<in> set ds'. c = NA \<or> (\<exists>t. c = Str t)"
    and d: "d = NA \<or> (\<exists>t. d = Str t)" by simp_all
  from Cons.IH [OF this(1,2)] d ds show ?case by (cases d) (simp_all add: fillna_def)
qed

lemma corpus_text:
  assumes "getcol b_df ''title'' = Inr ts" and "getcol b_df ''description'' = Inr ds"
    and "length ds = length ts" and "\<forall>c \<in> set (ts @ ds). c = NA \<or> (\<exists>t. c = Str t)"
  shows "corpus b_df = Inr (map2 (\<lambda>t d. text_of t @ '' '' @ text_of d) ts ds)"
proof -
  from assms(4) have t: "\<forall>c \<in> set ts. c = NA \<or> (\<exists>t. c = Str t)"
    and d: "\<forall>c \<in> set ds. c = NA \<or> (\<exists>t. c = Str t)"
    by simp_all
  have "add_series (map Str (map (\<lambda>c. text_of c @ '' '') ts)) (fillna [] ds) =
      Inr (map2 (\<lambda>l d. l @ text_of d) (map (\<lambda>c. text_of c @ '' '') ts) ds)"
    using assms(3) d by (intro add_series_text) simp_all
  moreover have "map2 (\<lambda>l d. l @ text_of d) (map (\<lambda>c. text_of c @ '' '') ts) ds =
      map2 (\<lambda>t d. text_of t @ '' '' @ text_of d) ts ds"
    by (simp add: zip_map1 case_prod_beta)
  ultimately show ?thesis
    using assms(1,2) add_scalar_text [OF t, of "'' ''"] by (simp add: corpus_def comp_def)
qed

lemma doc_freq_le: "doc_freq docs t \<le> length docs"
  by (simp add: doc_freq_def)

lemma idf_ge_1: "1 \<le> idf docs t"
proof -
  have "1 + real (doc_freq docs t) \<le> 1 + real (length docs)"
    using doc_freq_le [of docs t] by simp
  then have "1 \<le> (1 + real (length docs)) / (1 + real (doc_freq docs t))"
    by (simp add: le_divide_eq)
  then have "0 \<le> ln ((1 + real (length docs)) / (1 + real (doc_freq docs t)))"
    by simp
  then show ?thesis by (simp add: idf_def)
qed

lemma raw_score_nonneg: "0 \<le> raw_score docs d t"
  using idf_ge_1 [of docs t] by (simp add: raw_score_def)

lemma row_norm_nonneg: "0 \<le> row_norm docs terms d"
  by (auto simp: row_norm_def intro!: sum_list_nonneg)

lemma tfidf_nonneg: "0 \<le> tfidf docs terms d t"
  using raw_score_nonneg [of docs d t] row_norm_nonneg [of docs terms d]
  by (simp add: tfidf_def)

lemma weight_nonneg: "0 \<le> weight docs terms t"
  by (auto simp: weight_def tfidf_nonneg intro!: sum_list_nonneg)

lemma total_count_concat: "total_count docs t = count_list (concat docs) t"
  by (simp add: total_count_def term_count_def count_list_concat)

lemma limit_features_member:
  assumes dt: "distinct terms" and k: "kept \<in> limit_features m docs terms"
  shows "length kept = min m (length terms)"
    and "distinct kept"
    and "set kept \<subseteq> set terms"
    and "kept = filter (\<lambda>t. t \<in> set kept) terms"
    and "\<forall>a \<in> set kept. \<forall>b \<in> set terms - set kept. total_count docs b \<le> total_count docs a"
proof -
  have "length kept = min m (length terms) \<and> distinct kept \<and> set kept \<subseteq> set terms
      \<and> kept = filter (\<lambda>t. t \<in> set kept) terms
      \<and> (\<forall>a \<in> set kept. \<forall>b \<in> set terms - set kept. total_count docs b \<le> total_count docs a)"
  proof (cases "m < length terms")
    case False
    with k have "kept = terms" by (simp add: limit_features_def)
    with False dt show ?thesis by simp
  next
    case True
    with k obtain K where kept: "kept = filter (\<lambda>t. t \<in> K) terms"
      and sub: "K \<subseteq> set terms" and card: "card K = m"
      and top: "\<forall>a \<in> K. \<forall>b \<in> set terms - K. total_count docs b \<le> total_count docs a"
      by (auto simp: limit_features_def)
    from sub have s: "set kept = K" by (auto simp: kept)
    have "length kept = card ({t. t \<in> K} \<inter> set terms)"
      unfolding kept using dt by (rule distinct_length_filter)
    also from sub have "{t. t \<in> K} \<inter> set terms = K" by auto
    finally have "length kept = m" using card by simp
    moreover have "kept = filter (\<lambda>t. t \<in> set kept) terms" by (simp only: s) (rule kept)
    ultimately show ?thesis using True dt sub top s by (simp add: kept)
  qed
  then show "length kept = min m (length terms)"
    and "distinct kept"
    and "set kept \<subseteq> set terms"
    and "kept = filter (\<lambda>t. t \<in> set kept) terms"
    and "\<forall>a \<in> set kept. \<forall>b \<in> set terms - set kept. total_count docs b \<le> total_count docs a"
    by blast+
qed

lemma limit_features_nonempty:
  assumes dt: "distinct terms"
  shows "limit_features m docs terms \<noteq> {}"
proof (cases "m < length terms")
  case False
  then show ?thesis by (simp add: limit_features_def)
next
  case True
  let ?f = "\<lambda>t. - int (total_count docs t)"
  let ?ys = "sort_key ?f terms"
  let ?K = "set (take m ?ys)"
  have sub: "?K \<subseteq> set terms" using set_take_subset [of m ?ys] by simp
  have "distinct (take m ?ys)" using dt by simp
  then have "card ?K = length (take m ?ys)" by (rule distinct_card)
  with True have card: "card ?K = m" by simp
  have top: "total_count docs b \<le> total_count docs a"
    if a: "a \<in> ?K" and b: "b \<in> set terms - ?K" for a b
  proof -
    have "set ?ys = set (take m ?ys) \<union> set (drop m ?ys)"
      by (metis append_take_drop_id set_append)
    with b have bd: "b \<in> set (drop m ?ys)" by auto
    have "sorted (map ?f (take m ?ys @ drop m ?ys))"
      by (simp only: append_take_drop_id) (rule sorted_sort_key)
    then have "\<forall>x \<in> set (map ?f (take m ?ys)). \<forall>y \<in> set (map ?f (drop m ?ys)). x \<le> y"
      by (simp only: map_append sorted_append) blast
    with a bd have "?f a \<le> ?f b" by auto
    then show ?thesis by simp
  qed
  from sub card top have "filter (\<lambda>t. t \<in> ?K) terms \<in> limit_features m docs terms"
    unfolding limit_features_def using True by (simp only: if_True) blast
  then show ?thesis by blast
qed

lemma count_list_sort_key: "count_list (sort_key f xs) y = count_list xs y"
  by (simp add: count_list_eq_length_filter filter_sort)

lemma sort_values_desc_nonempty: "sort_key (\<lambda>p. - snd p) rows \<in> sort_values_desc rows"
proof -
  have "sorted (map (\<lambda>p. - snd p) (sort_key (\<lambda>p. - snd p) rows))" by (rule sorted_sort_key)
  then have "sorted_wrt (\<lambda>a b. snd b \<le> snd a) (sort_key (\<lambda>p. - snd p) rows)"
    by (simp add: sorted_map)
  then show ?thesis by (simp add: sort_values_desc_def count_list_sort_key)
qed

lemma sort_values_desc_member:
  assumes "ws \<in> sort_values_desc rows"
  shows "set ws = set rows"
    and "length ws = length rows"
    and "sorted_wrt (\<lambda>a b. snd b \<le> snd a) ws"
    and "distinct rows \<Longrightarrow> distinct ws"
proof -
  from assms have c: "\<And>p. count_list ws p = count_list rows p"
    and s: "sorted_wrt (\<lambda>a b. snd b \<le> snd a) ws"
    by (auto simp: sort_values_desc_def)
  show st: "set ws = set rows"
  proof (rule set_eqI)
    fix x
    have "x \<in> set ws \<longleftrightarrow> count_list ws x \<noteq> 0" by (simp add: count_list_0_iff)
    also have "\<dots> \<longleftrightarrow> count_list rows x \<noteq> 0" by (simp add: c)
    also have "\<dots> \<longleftrightarrow> x \<in> set rows" by (simp add: count_list_0_iff)
    finally show "x \<in> set ws \<longleftrightarrow> x \<in> set rows" .
  qed
  have "length ws = sum (count_list ws) (set ws)" by (simp add: sum_count_set)
  also have "\<dots> = sum (count_list rows) (set rows)" by (simp add: st c)
  also have "\<dots> = length rows" by (simp add: sum_count_set)
  finally show len: "length ws = length rows" .
  show "sorted_wrt (\<lambda>a b. snd b \<le> snd a) ws" by (rule s)
  show "distinct ws" if "distinct rows"
  proof (rule card_distinct)
    from that have "card (set rows) = length rows" by (rule distinct_card)
    with st len show "card (set ws) = length ws" by simp
  qed
qed

lemma salience_value:
  "concat (map analyze documents) \<noteq> [] \<Longrightarrow>
     salience documents =
       Inr (\<Union>terms \<in> vocabulary 20 (map analyze documents).
              sort_values_desc (map (\<lambda>t. (t, weight (map analyze documents) terms t)) terms))"
  by (simp add: salience_def Let_def)

lemma salience_empty_vocabulary:
  "concat (map analyze documents) = [] \<Longrightarrow> salience documents = Inl ValueError"
  by (simp add: salience_def Let_def)

lemma salience_words:
  assumes ne: "concat (map analyze documents) \<noteq> []"
  defines "docs \<equiv> map analyze documents"
  shows "\<exists>W. salience documents = Inr W \<and> W \<noteq> {}
    \<and> (\<forall>words \<in> W.
          length words = min 20 (card (set (concat docs)))
        \<and> distinct (map fst words)
        \<and> fst ` set words \<subseteq> set (concat docs)
        \<and> (\<forall>t \<in> set (concat docs) - fst ` set words. \<forall>p \<in> set words.
              count_list (concat docs) t \<le> count_list (concat docs) (fst p))
        \<and> (\<forall>p \<in> set words.
              snd p = sum_list (map (\<lambda>d. tfidf docs
                  (filter (\<lambda>t. t \<in> fst ` set words) (sort (remdups (concat docs)))) d (fst p)) docs)
              \<and> 0 \<le> snd p)
        \<and> sorted_wrt (\<lambda>a b. snd b \<le> snd a) words)"
proof -
  let ?all = "sort (remdups (concat docs))"
  let ?rows = "\<lambda>terms. map (\<lambda>t. (t, weight docs terms t)) terms"
  let ?W = "\<Union>terms \<in> vocabulary 20 docs. sort_values_desc (?rows terms)"
  have da: "distinct ?all" by simp
  have s: "salience documents = Inr ?W"
    using salience_value [OF ne] by (simp add: docs_def)
  from limit_features_nonempty [OF da, of 20 docs] obtain terms
    where "terms \<in> vocabulary 20 docs"
    by (auto simp: vocabulary_def)
  with sort_values_desc_nonempty [of "?rows terms"] have nonempty: "?W \<noteq> {}" by blast
  have each: "length words = min 20 (card (set (concat docs)))
        \<and> distinct (map fst words)
        \<and> fst ` set words \<subseteq> set (concat docs)
        \<and> (\<forall>t \<in> set (concat docs) - fst ` set words. \<forall>p \<in> set words.
              count_list (concat docs) t \<le> count_list (concat docs) (fst p))
        \<and> (\<forall>p \<in> set words.
              snd p = sum_list (map (\<lambda>d. tfidf docs
                  (filter (\<lambda>t. t \<in> fst ` set words) ?all) d (fst p)) docs)
              \<and> 0 \<le> snd p)
        \<and> sorted_wrt (\<lambda>a b. snd b \<le> snd a) words"
    if w: "words \<in> ?W" for words
  proof -
    from w obtain terms where t: "terms \<in> limit_features 20 docs ?all"
      and ws: "words \<in> sort_values_desc (?rows terms)"
      by (auto simp: vocabulary_def)
    note m = limit_features_member [OF da t]
    note v = sort_values_desc_member [OF ws]
    have dr: "distinct (?rows terms)" using m(2) by (simp add: distinct_map inj_on_def)
    have fs: "fst ` set words = set terms" by (simp add: v(1) image_image)
    have len: "length words = min 20 (card (set (concat docs)))"
      using v(2) m(1) by (simp add: length_remdups_card_conv)
    have "inj_on fst (set words)" by (auto simp: v(1) inj_on_def)
    with v(4) [OF dr] have dist: "distinct (map fst words)" by (simp add: distinct_map)
    have sub: "fst ` set words \<subseteq> set (concat docs)" using m(3) by (simp add: fs)
    have top: "\<forall>t \<in> set (concat docs) - fst ` set words. \<forall>p \<in> set words.
        count_list (concat docs) t \<le> count_list (concat docs) (fst p)"
    proof (intro ballI)
      fix t p assume "t \<in> set (concat docs) - fst ` set words" and "p \<in> set words"
      then have "t \<in> set ?all - set terms" and "fst p \<in> set terms"
        using fs by auto
      with m(5) have "total_count docs t \<le> total_count docs (fst p)" by blast
      then show "count_list (concat docs) t \<le> count_list (concat docs) (fst p)"
        by (simp only: total_count_concat)
    qed
    have terms_eq: "filter (\<lambda>t. t \<in> fst ` set words) ?all = terms"
      using m(4) by (simp only: fs)
    have wt: "\<forall>p \<in> set words.
        snd p = sum_list (map (\<lambda>d. tfidf docs
            (filter (\<lambda>t. t \<in> fst ` set words) ?all) d (fst p)) docs) \<and> 0 \<le> snd p"
    proof
      fix p assume "p \<in> set words"
      then have "p \<in> set (?rows terms)" by (simp only: v(1))
      then have "snd p = weight docs terms (fst p)" by auto
      with weight_nonneg [of docs terms "fst p"]
      show "snd p = sum_list (map (\<lambda>d. tfidf docs
            (filter (\<lambda>t. t \<in> fst ` set words) ?all) d (fst p)) docs) \<and> 0 \<le> snd p"
        by (simp add: terms_eq weight_def)
    qed
    from len dist sub top wt v(3) show ?thesis by blast
  qed
  from s nonempty each show ?thesis by blast
qed

text \<open>
  Claim C5, as the code has it. The documents of a blog frame are, row by row, the title,
  a space and the description, a missing cell counting as the empty string. A keyword
  whose blog frame is empty is skipped: no extraction runs and nothing fails. When no
  document holds a token (two or more word characters in a row), the vectorizer raises
  \<open>ValueError\<close> for its empty vocabulary. Otherwise the extraction returns a table, and
  whichever way the library breaks its ties, the table has these properties. It has 20
  rows, or as many as there are distinct tokens when these are fewer; its terms are
  distinct tokens of the documents, and no token left out occurs more often in the
  documents than a term of the table; the weight of a term is the sum over all documents
  of its TF-IDF score, the scores being taken over the terms of the table, and is not
  negative; and the rows are in descending order of weight.
\<close>

theorem salience_extraction:
  "(getcol b_df ''title'' = Inr ts \<and> getcol b_df ''description'' = Inr ds
      \<and> length ds = length ts \<and> (\<forall>c \<in> set (ts @ ds). c = NA \<or> (\<exists>t. c = Str t)) \<longrightarrow>
      corpus b_df = Inr (map2 (\<lambda>t d. text_of t @ '' '' @ text_of d) ts ds))
   \<and> (df_empty (get_df blogs kw) \<longrightarrow> salience_loop blogs (kw # kws) = salience_loop blogs kws)
   \<and> (concat (map analyze plain) = [] \<longrightarrow> salience plain = Inl ValueError)
   \<and> (concat (map analyze documents) \<noteq> [] \<longrightarrow>
        (\<exists>W. salience documents = Inr W \<and> W \<noteq> {}
          \<and> (\<forall>words \<in> W.
                length words = min 20 (card (set (concat (map analyze documents))))
              \<and> distinct (map fst words)
              \<and> fst ` set words \<subseteq> set (concat (map analyze documents))
              \<and> (\<forall>t \<in> set (concat (map analyze documents)) - fst ` set words. \<forall>p \<in> set words.
                    count_list (concat (map analyze documents)) t
                      \<le> count_list (concat (map analyze documents)) (fst p))
              \<and> (\<forall>p \<in> set words.
                    snd p = sum_list (map (\<lambda>d. tfidf (map analyze documents)
                        (filter (\<lambda>t. t \<in> fst ` set words)
                                (sort (remdups (concat (map analyze documents))))) d (fst p))
                      (map analyze documents))
                    \<and> 0 \<le> snd p)
              \<and> sorted_wrt (\<lambda>a b. snd b \<le> snd a) words)))"
proof (intro conjI impI)
  assume "getcol b_df ''title'' = Inr ts \<and> getcol b_df ''description'' = Inr ds
      \<and> length ds = length ts \<and> (\<forall>c \<in> set (ts @ ds). c = NA \<or> (\<exists>t. c = Str t))"
  then show "corpus b_df = Inr (map2 (\<lambda>t d. text_of t @ '' '' @ text_of d) ts ds)"
    using corpus_text [of b_df ts ds] by blast
next
  assume "df_empty (get_df blogs kw)"
  then show "salience_loop blogs (kw # kws) = salience_loop blogs kws" by simp
next
  assume "concat (map analyze plain) = []"
  then show "salience plain = Inl ValueError" by (rule salience_empty_vocabulary)
next
  assume "concat (map analyze documents) \<noteq> []"
  from salience_words [OF this]
  show "\<exists>W. salience documents = Inr W \<and> W \<noteq> {}
          \<and> (\<forall>words \<in> W.
                length words = min 20 (card (set (concat (map analyze documents))))
              \<and> distinct (map fst words)
              \<and> fst ` set words \<subseteq> set (concat (map analyze documents))
              \<and> (\<forall>t \<in> set (concat (map analyze documents)) - fst ` set words. \<forall>p \<in> set words.
                    count_list (concat (map analyze documents)) t
                      \<le> count_list (concat (map analyze documents)) (fst p))
              \<and> (\<forall>p \<in> set words.
                    snd p = sum_list (map (\<lambda>d. tfidf (map analyze documents)
                        (filter (\<lambda>t. t \<in> fst ` set words)
                                (sort (remdups (concat (map analyze documents))))) d (fst p))
                      (map analyze documents))
                    \<and> 0 \<le> snd p)
              \<and> sorted_wrt (\<lambda>a b. snd b \<le> snd a) words)" .
qed

lemma analyze_crowded: "analyze crowded_document = crowded_tokens"
  by (simp add: analyze_def crowded_document_def crowded_tokens_def lower_def lower_char_def
      word_char_def char_of_def bit_Suc_0_iff)

lemma crowded_counts:
  "card (set crowded_tokens) = 21"
  "count_list crowded_tokens ''aa'' = 2"
  "\<forall>t \<in> set crowded_tokens. t \<noteq> ''aa'' \<longrightarrow> count_list crowded_tokens t = 1"
  by (simp_all add: crowded_tokens_def)

lemma analyze_short:
  "analyze ''aa'' = [''aa'']" "analyze ''bb'' = [''bb'']"
  by (simp_all add: analyze_def lower_def lower_char_def word_char_def char_of_def bit_Suc_0_iff)

lemma sort_values_desc_two:
  assumes "snd a < snd b"
  shows "sort_values_desc [a, b] = {[b, a]}"
proof (rule set_eqI)
  fix ws
  from assms have ne: "a \<noteq> b" by auto
  show "ws \<in> sort_values_desc [a, b] \<longleftrightarrow> ws \<in> {[b, a]}"
  proof
    assume w: "ws \<in> sort_values_desc [a, b]"
    note m = sort_values_desc_member [OF w]
    from m(2) obtain x y where ws: "ws = [x, y]"
      by (cases ws; cases "tl ws") auto
    from m(1) ws have "{x, y} = {a, b}" by simp
    with ne have "(x = a \<and> y = b) \<or> (x = b \<and> y = a)" by (auto simp: doubleton_eq_iff)
    moreover from m(3) ws have "snd y \<le> snd x" by simp
    ultimately show "ws \<in> {[b, a]}" using assms ws by auto
  next
    assume "ws \<in> {[b, a]}"
    with assms ne show "ws \<in> sort_values_desc [a, b]"
      by (auto simp: sort_values_desc_def)
  qed
qed

lemma salience_three_documents:
  "salience [''aa'', ''bb'', ''bb''] = Inr {[(''bb'', 2), (''aa'', 1)]}"
proof -
  let ?docs = "[[''aa''], [''bb''], [''bb'']]"
  let ?terms = "[''aa'', ''bb'']"
  have a: "0 < idf ?docs ''aa''" and b: "0 < idf ?docs ''bb''"
    using idf_ge_1 [of ?docs "''aa''"] idf_ge_1 [of ?docs "''bb''"] by simp_all
  have v: "vocabulary 20 ?docs = {?terms}"
    by (simp add: vocabulary_def limit_features_def)
  have na: "row_norm ?docs ?terms [''aa''] = idf ?docs ''aa''"
    using a by (simp add: row_norm_def raw_score_def term_count_def)
  have nb: "row_norm ?docs ?terms [''bb''] = idf ?docs ''bb''"
    using b by (simp add: row_norm_def raw_score_def term_count_def)
  have wa: "weight ?docs ?terms ''aa'' = 1"
    using a b by (simp add: weight_def tfidf_def na nb) (simp add: raw_score_def term_count_def)
  have wb: "weight ?docs ?terms ''bb'' = 2"
    using a b by (simp add: weight_def tfidf_def na nb) (simp add: raw_score_def term_count_def)
  have "sort_values_desc [(''aa'', 1 :: real), (''bb'', 2)] = {[(''bb'', 2), (''aa'', 1)]}"
    by (rule sort_values_desc_two) simp
  then show ?thesis
    by (simp add: salience_def analyze_short v wa wb)
qed

theorem salience_extraction_witness:
  "getcol blog_frame ''title'' = Inr [Str ''Omega review'']
   \<and> getcol blog_frame ''description'' = Inr [Str ''fish oil review'']
   \<and> corpus blog_frame = Inr [''Omega review fish oil review'']
   \<and> df_empty (get_df [(''omega3'', empty_frame)] ''omega3'')
   \<and> salience_loop [(''omega3'', empty_frame)] [''omega3''] = Inr []
   \<and> concat (map analyze ['' '']) = []
   \<and> salience ['' ''] = Inl ValueError
   \<and> concat (map analyze [crowded_document]) = crowded_tokens
   \<and> card (set crowded_tokens) = 21
   \<and> (\<exists>W. salience [crowded_document] = Inr W \<and> W \<noteq> {}
        \<and> (\<forall>words \<in> W. length words = 20
              \<and> distinct (map fst words)
              \<and> fst ` set words \<subseteq> set crowded_tokens
              \<and> ''aa'' \<in> fst ` set words
              \<and> (\<forall>p \<in> set words. 0 \<le> snd p)
              \<and> sorted_wrt (\<lambda>a b. snd b \<le> snd a) words))
   \<and> salience [''aa'', ''bb'', ''bb''] = Inr {[(''bb'', 2), (''aa'', 1)]}"
proof -
  have g: "getcol blog_frame ''title'' = Inr [Str ''Omega review'']"
    "getcol blog_frame ''description'' = Inr [Str ''fish oil review'']"
    by (simp_all add: getcol_def blog_frame_def)
  have e: "df_empty (get_df [(''omega3'', empty_frame)] ''omega3'')"
    by (simp add: get_df_def df_empty_def empty_frame_def)
  have z: "concat (map analyze ['' '']) = []"
    by (simp add: analyze_def lower_def lower_char_def word_char_def)
  have c: "concat (map analyze [crowded_document]) = crowded_tokens"
    by (simp add: analyze_crowded)
  have n: "concat (map analyze [crowded_document]) \<noteq> []"
    by (simp add: analyze_crowded crowded_tokens_def)
  note th = salience_extraction [of blog_frame "[Str ''Omega review'']" "[Str ''fish oil review'']"
      "[(''omega3'', empty_frame)]" "''omega3''" "[]" "['' '']" "[crowded_document]"]
  from th g have cp: "corpus blog_frame = Inr [''Omega review fish oil review'']" by simp
  from th e have l: "salience_loop [(''omega3'', empty_frame)] [''omega3''] = Inr []"
    by (simp del: salience_loop.simps(2))
  from th z have v: "salience ['' ''] = Inl ValueError" by blast
  note d = th [THEN conjunct2, THEN conjunct2, THEN conjunct2, THEN mp, OF n]
  from d obtain W where all: "salience [crowded_document] = Inr W \<and> W \<noteq> {}
          \<and> (\<forall>words \<in> W.
                length words = min 20 (card (set (concat (map analyze [crowded_document]))))
              \<and> distinct (map fst words)
              \<and> fst ` set words \<subseteq> set (concat (map analyze [crowded_document]))
              \<and> (\<forall>t \<in> set (concat (map analyze [crowded_document])) - fst ` set words.
                    \<forall>p \<in> set words.
                    count_list (concat (map analyze [crowded_document])) t
                      \<le> count_list (concat (map analyze [crowded_document])) (fst p))
              \<and> (\<forall>p \<in> set words.
                    snd p = sum_list (map (\<lambda>d. tfidf (map analyze [crowded_document])
                        (filter (\<lambda>t. t \<in> fst ` set words)
                                (sort (remdups (concat (map analyze [crowded_document]))))) d (fst p))
                      (map analyze [crowded_document]))
                    \<and> 0 \<le> snd p)
              \<and> sorted_wrt (\<lambda>a b. snd b \<le> snd a) words)" ..
  from all have W: "salience [crowded_document] = Inr W" "W \<noteq> {}"
    by (rule conjunct1, rule conjunct2 [THEN conjunct1])
  note full = all [THEN conjunct2, THEN conjunct2, unfolded c]
  have each: "length words = 20
      \<and> distinct (map fst words)
      \<and> fst ` set words \<subseteq> set crowded_tokens
      \<and> ''aa'' \<in> fst ` set words
      \<and> (\<forall>p \<in> set words. 0 \<le> snd p)
      \<and> sorted_wrt (\<lambda>a b. snd b \<le> snd a) words" if w: "words \<in> W" for words
  proof -
    note f = full [THEN bspec, OF w]
    note f1 = f [THEN conjunct1]
    note f2 = f [THEN conjunct2, THEN conjunct1]
    note f3 = f [THEN conjunct2, THEN conjunct2, THEN conjunct1]
    note f4 = f [THEN conjunct2, THEN conjunct2, THEN conjunct2, THEN conjunct1]
    note f5 = f [THEN conjunct2, THEN conjunct2, THEN conjunct2, THEN conjunct2, THEN conjunct1]
    note f6 = f [THEN conjunct2, THEN conjunct2, THEN conjunct2, THEN conjunct2, THEN conjunct2]
    from f1 have len: "length words = 20" by (simp add: crowded_counts(1))
    have kept: "''aa'' \<in> fst ` set words"
    proof (rule ccontr)
      assume out: "''aa'' \<notin> fst ` set words"
      from len obtain p where p: "p \<in> set words" by (cases words) auto
      have "''aa'' \<in> set crowded_tokens" by (simp add: crowded_tokens_def)
      with out have "''aa'' \<in> set crowded_tokens - fst ` set words" by simp
      from f4 [THEN bspec, OF this, THEN bspec, OF p]
      have le: "count_list crowded_tokens ''aa'' \<le> count_list crowded_tokens (fst p)" .
      from p have in_img: "fst p \<in> fst ` set words" by (rule imageI)
      with f3 have "fst p \<in> set crowded_tokens" by (rule subsetD)
      moreover from in_img out have "fst p \<noteq> ''aa''" by metis
      ultimately have "fst p \<in> set crowded_tokens" and "fst p \<noteq> ''aa''" by this+
      with crowded_counts(3) have "count_list crowded_tokens (fst p) = 1" by blast
      with le show False by (simp add: crowded_counts(2))
    qed
    have nonneg: "\<forall>p \<in> set words. 0 \<le> snd p"
    proof
      fix p assume "p \<in> set words"
      from f5 [THEN bspec, OF this] show "0 \<le> snd p" by (rule conjunct2)
    qed
    from len f2 f3 kept nonneg f6 show ?thesis by (intro conjI)
  qed
  then have "\<forall>words \<in> W. length words = 20
              \<and> distinct (map fst words)
              \<and> fst ` set words \<subseteq> set crowded_tokens
              \<and> ''aa'' \<in> fst ` set words
              \<and> (\<forall>p \<in> set words. 0 \<le> snd p)
              \<and> sorted_wrt (\<lambda>a b. snd b \<le> snd a) words"
    by (rule ballI)
  with W have cap: "\<exists>W. salience [crowded_document] = Inr W \<and> W \<noteq> {}
        \<and> (\<forall>words \<in> W. length words = 20
              \<and> distinct (map fst words)
              \<and> fst ` set words \<subseteq> set crowded_tokens
              \<and> ''aa'' \<in> fst ` set words
              \<and> (\<forall>p \<in> set words. 0 \<le> snd p)
              \<and> sorted_wrt (\<lambda>a b. snd b \<le> snd a) words)"
    by blast
  from g cp e l z v c crowded_counts(1) cap salience_three_documents show ?thesis
    by (intro conjI)
qed

lemma terse_body_frame:
  "search_of_response \<lparr>status_code = 200, json = Some terse_body\<rparr> = Inr terse_frame"
  by (simp add: search_of_response_def terse_body_def DataFrame_records_def terse_frame_def)

lemma analyze_terse: "analyze ''Q&A '' = []"
  by (simp add: analyze_def lower_def lower_char_def word_char_def char_of_def bit_Suc_0_iff)

text \<open>
  The claim as stated fails for a non-empty collection without tokens: the blog search
  returns one item, titled \<open>Q&A\<close>, with an empty description. The frame is not empty, its
  only document has no run of two word characters, and the extraction raises
  \<open>ValueError\<close>, which ends tab 3.
\<close>

theorem salience_raises_without_tokens:
  "search_of_response \<lparr>status_code = 200, json = Some terse_body\<rparr> = Inr terse_frame
   \<and> \<not> df_empty terse_frame
   \<and> corpus terse_frame = Inr [''Q&A '']
   \<and> analyze ''Q&A '' = []
   \<and> salience [''Q&A ''] = Inl ValueError
   \<and> salience_loop [(''omega3'', terse_frame)] [''omega3''] = Inl ValueError
   \<and> tab_viz [''omega3''] [(''omega3'', terse_frame)] [(''omega3'', shop_frame)] = Inl ValueError"
proof -
  have e: "\<not> df_empty terse_frame" by (simp add: df_empty_def terse_frame_def)
  have c: "corpus terse_frame = Inr [''Q&A '']"
    by (simp add: corpus_def terse_frame_def getcol_def fillna_def)
  have s: "salience [''Q&A ''] = Inl ValueError"
    by (rule salience_empty_vocabulary) (simp add: analyze_terse)
  have l: "salience_loop [(''omega3'', terse_frame)] [''omega3''] = Inl ValueError"
    by (simp add: get_df_def e c s)
  have g: "getcol tagged_frame ''keyword'' = Inr [Str ''omega3'', Str ''omega3'']"
    "getcol tagged_frame ''lprice'' = Inr [Num 12000, NA]"
    by (simp_all add: getcol_def tagged_frame_def)
  have v: "tab_viz [''omega3''] [(''omega3'', terse_frame)] [(''omega3'', shop_frame)] = Inl ValueError"
    by (simp add: tab_viz_def all_shop_data_shop_frame pd_concat_tagged Let_def l g
        numeric_column_def del: salience_loop.simps all_shop_data.simps)
  from terse_body_frame e c analyze_terse s l v show ?thesis by blast
qed

end
